theory Spec2Isabelle
  imports Complex_Main "HOL-Library.Word"
begin

section \<open>BaseCorrelationTermStructure (ql/experimental/credit/basecorrelationstructure.hpp)\<close>

text \<open>
  A shallow embedding of the class template \<^verbatim>\<open>BaseCorrelationTermStructure<Interpolator2D_T>\<close>.
  Every \<^verbatim>\<open>QL_REQUIRE\<close> of the header is a branch returning \<open>Inl (InvalidInput m)\<close>, where
  \<open>m\<close> carries the values the message streams out. An out-of-range \<^verbatim>\<open>operator[]\<close>,
  \<^verbatim>\<open>front()\<close> or \<^verbatim>\<open>back()\<close> on a \<^verbatim>\<open>std::vector\<close> is undefined behaviour in C++; the model
  returns \<open>Inl UndefinedBehaviour\<close> there instead of reading an unspecified HOL value.
  \<^verbatim>\<open>Real\<close> and \<^verbatim>\<open>Time\<close> are modelled as \<open>real\<close>; \<^verbatim>\<open>Size\<close> is \<open>nat\<close>, except in the one
  subtraction of \<^verbatim>\<open>updateMatrix\<close>, which is done on 64-bit words because it can wrap.
\<close>

subsection \<open>Types the header uses but does not declare\<close>

text \<open>A \<^verbatim>\<open>Date\<close> is its serial number; the null date \<^verbatim>\<open>Date()\<close> has serial number 0.\<close>

type_synonym Date = int

definition nullDate :: Date where
  "nullDate = 0"

text \<open>A \<^verbatim>\<open>Handle<Quote>\<close> is the identity of the quote it points to.\<close>

type_synonym QuoteHandle = nat

text \<open>
  \<^verbatim>\<open>DateGeneration::Rule\<close> (ql/time/dategenerationrule.hpp). The constructor reads only
  whether the rule is one of \<open>CDS2015\<close>, \<open>CDS\<close>, \<open>OldCDS\<close>.
\<close>

datatype Rule =
    Backward | Forward | Zero | ThirdWednesday | ThirdWednesdayInclusive
  | Twentieth | TwentiethIMM | OldCDS | CDS | CDS2015

text \<open>
  \<^verbatim>\<open>Matrix\<close>: its dimensions and its elements, \<open>elem m i j\<close> being \<^verbatim>\<open>m[i][j]\<close>. The header
  indexes a matrix only inside loops bounded by \<^verbatim>\<open>rows()\<close> and \<^verbatim>\<open>columns()\<close>.
\<close>

record Matrix =
  rows :: nat
  columns :: nat
  elem :: "nat \<Rightarrow> nat \<Rightarrow> real"

text \<open>\<^verbatim>\<open>Matrix(r, c, v)\<close>\<close>

definition newMatrix :: "nat \<Rightarrow> nat \<Rightarrow> real \<Rightarrow> Matrix" where
  "newMatrix r c v = \<lparr>rows = r, columns = c, elem = (\<lambda>i j. v)\<rparr>"

text \<open>\<^verbatim>\<open>m[i][j] = v\<close>\<close>

definition setElem :: "Matrix \<Rightarrow> nat \<Rightarrow> nat \<Rightarrow> real \<Rightarrow> Matrix" where
  "setElem m i j v = m\<lparr>elem := (elem m)(i := (elem m i)(j := v))\<rparr>"

subsection \<open>Errors\<close>

text \<open>
  One constructor per \<^verbatim>\<open>QL_REQUIRE\<close> of the header, in the order of the source, with the
  values its message prints (\<^verbatim>\<open>io::ordinal(n)\<close> is kept as the number \<open>n\<close>).
\<close>

datatype 'p Message =
    FirstTenorNegative 'p
  | NonIncreasingTenor nat 'p nat 'p
  | FirstLossNegative real
  | FirstLossLarger real
  | NonIncreasingLosses nat real nat real
  | LossLevelLarger nat real
  | NoTrancheDatesLeft
  | LossRowMismatch nat nat
  | TenorColumnMismatch nat nat

datatype 'p Error =
    InvalidInput "'p Message"
  | ExtrapolationNotAllowed
  | UndefinedBehaviour

subsection \<open>Collaborators\<close>

text \<open>
  Everything the class consumes through an interface and does not implement: the calendar
  and business-day convention given to the constructor, \<^verbatim>\<open>Period\<close> (the type \<open>'p\<close>) with its
  comparison, the schedule builder, the quotes behind the handles, the reference date of
  the base \<^verbatim>\<open>TermStructure\<close>, the base-class state (the type \<open>'b\<close>) with \<^verbatim>\<open>registerWith\<close> and
  \<^verbatim>\<open>TermStructure::update\<close>, and the interpolation algorithm \<^verbatim>\<open>Interpolator2D_T\<close> (whose
  built object has type \<open>'c\<close>). They are parameters of the model. Two values of this record
  that differ in \<open>quoteValue\<close> or \<open>referenceDate\<close> are two moments of the market.
\<close>

record ('p, 'b, 'c) World =
  referenceDate :: Date
  timeFromReference :: "Date \<Rightarrow> real"
  quoteValue :: "QuoteHandle \<Rightarrow> real"
  periodGt :: "'p \<Rightarrow> 'p \<Rightarrow> bool"
  zeroDays :: 'p
  plusPeriod :: "Date \<Rightarrow> 'p \<Rightarrow> Date"
  cdsMaturity :: "Date \<Rightarrow> 'p \<Rightarrow> Rule \<Rightarrow> Date"
  makeSchedule :: "Date \<Rightarrow> Date \<Rightarrow> Rule \<Rightarrow> Date list"
  adjust :: "Date \<Rightarrow> Date"
  advance :: "Date \<Rightarrow> 'p \<Rightarrow> Date"
  registerWith :: "QuoteHandle \<Rightarrow> 'b \<Rightarrow> 'b"
  termStructureUpdate :: "'b \<Rightarrow> 'b"
  buildInterpolation :: "real list \<Rightarrow> real list \<Rightarrow> Matrix \<Rightarrow> 'c"
  interpolationValue :: "'c \<Rightarrow> real list \<Rightarrow> real list \<Rightarrow> Matrix \<Rightarrow> real \<Rightarrow> real \<Rightarrow> real"

subsection \<open>The object\<close>

text \<open>The data members of the class, in the order of the source (each named as in the source
  without its trailing underscore), and the base-class part.\<close>

record ('p, 'b, 'c) BaseCorrelationTermStructure =
  correlHandles :: "QuoteHandle list list"
  correlations :: Matrix
  interpolation :: "'c option"
  nLosses :: nat
  tenors :: "'p list"
  lossLevel :: "real list"
  trancheDates :: "Date list"
  trancheTimes :: "real list"
  base :: 'b

subsection \<open>checkTrancheTenors\<close>

function checkTrancheTenors_loop ::
  "('p, 'b, 'c) World \<Rightarrow> 'p list \<Rightarrow> nat \<Rightarrow> 'p Error + unit" where
  "checkTrancheTenors_loop w ts i =
     (if i < length ts then
        (if periodGt w (ts ! i) (ts ! (i - 1)) then checkTrancheTenors_loop w ts (i + 1)
         else Inl (InvalidInput (NonIncreasingTenor i (ts ! (i - 1)) (i + 1) (ts ! i))))
      else Inr ())"
  by pat_completeness auto
termination
  by (relation "measure (\<lambda>(w, ts, i). length ts - i)") auto

declare checkTrancheTenors_loop.simps [simp del]

definition checkTrancheTenors ::
  "('p, 'b, 'c) World \<Rightarrow> ('p, 'b, 'c) BaseCorrelationTermStructure \<Rightarrow> 'p Error + unit" where
  "checkTrancheTenors w s =
     (if tenors s = [] then Inl UndefinedBehaviour
      else if \<not> periodGt w (tenors s ! 0) (zeroDays w)
        then Inl (InvalidInput (FirstTenorNegative (tenors s ! 0)))
      else checkTrancheTenors_loop w (tenors s) 1)"

subsection \<open>checkLosses\<close>

function checkLosses_loop :: "nat \<Rightarrow> real list \<Rightarrow> nat \<Rightarrow> 'p Error + unit" where
  "checkLosses_loop n ls i =
     (if i < n then
        (if \<not> i < length ls then Inl UndefinedBehaviour
         else if \<not> ls ! i > ls ! (i - 1)
           then Inl (InvalidInput (NonIncreasingLosses i (ls ! (i - 1)) (i + 1) (ls ! i)))
         else if \<not> ls ! i \<le> 1 then Inl (InvalidInput (LossLevelLarger i (ls ! i)))
         else checkLosses_loop n ls (i + 1))
      else Inr ())"
  by pat_completeness auto
termination
  by (relation "measure (\<lambda>(n, ls, i). n - i)") auto

declare checkLosses_loop.simps [simp del]

definition checkLosses :: "('p, 'b, 'c) BaseCorrelationTermStructure \<Rightarrow> 'p Error + unit" where
  "checkLosses s =
     (if lossLevel s = [] then Inl UndefinedBehaviour
      else if \<not> lossLevel s ! 0 > 0
        then Inl (InvalidInput (FirstLossNegative (lossLevel s ! 0)))
      else if \<not> lossLevel s ! 0 \<le> 1
        then Inl (InvalidInput (FirstLossLarger (lossLevel s ! 0)))
      else checkLosses_loop (nLosses s) (lossLevel s) 1)"

subsection \<open>initializeTrancheTimes\<close>

text \<open>\<^verbatim>\<open>v.resize(n)\<close> on a vector of \<^verbatim>\<open>Time\<close>: truncate, or pad with zeros.\<close>

definition resize :: "nat \<Rightarrow> real list \<Rightarrow> real list" where
  "resize n xs = take n xs @ replicate (n - length xs) 0"

function initializeTrancheTimes_loop ::
  "('p, 'b, 'c) World \<Rightarrow> nat \<Rightarrow> ('p, 'b, 'c) BaseCorrelationTermStructure
     \<Rightarrow> ('p, 'b, 'c) BaseCorrelationTermStructure" where
  "initializeTrancheTimes_loop w i s =
     (if i < length (trancheDates s) then
        initializeTrancheTimes_loop w (i + 1)
          (s\<lparr>trancheTimes := (trancheTimes s)[i := timeFromReference w (trancheDates s ! i)]\<rparr>)
      else s)"
  by pat_completeness auto
termination
  by (relation "measure (\<lambda>(w, i, s). length (trancheDates s) - i)") auto

declare initializeTrancheTimes_loop.simps [simp del]

definition initializeTrancheTimes ::
  "('p, 'b, 'c) World \<Rightarrow> ('p, 'b, 'c) BaseCorrelationTermStructure
     \<Rightarrow> ('p, 'b, 'c) BaseCorrelationTermStructure" where
  "initializeTrancheTimes w s =
     initializeTrancheTimes_loop w 0
       (s\<lparr>trancheTimes := resize (length (trancheDates s)) (trancheTimes s)\<rparr>)"

subsection \<open>checkInputs\<close>

definition checkInputs ::
  "('p, 'b, 'c) BaseCorrelationTermStructure \<Rightarrow> nat \<Rightarrow> nat \<Rightarrow> 'p Error + unit" where
  "checkInputs s volRows volsColumns =
     (if \<not> nLosses s = volRows
        then Inl (InvalidInput (LossRowMismatch (nLosses s) volRows))
      else if \<not> length (tenors s) = volsColumns
        then Inl (InvalidInput (TenorColumnMismatch (length (tenors s)) volsColumns))
      else Inr ())"

subsection \<open>updateMatrix\<close>

text \<open>
  \<^verbatim>\<open>tenorStartIndex = correlHandles_.front().size() - correlations_.columns()\<close> is a
  subtraction of two \<^verbatim>\<open>Size\<close> values and wraps modulo \<open>2 ^ 64\<close>; so does
  \<^verbatim>\<open>tenorStartIndex + j\<close>.
\<close>

type_synonym Size = "64 word"

definition tenorStartIndex :: "('p, 'b, 'c) BaseCorrelationTermStructure \<Rightarrow> Size" where
  "tenorStartIndex s =
     of_nat (length (hd (correlHandles s))) - of_nat (columns (correlations s))"

text \<open>The inner loop over \<open>j\<close>, for a fixed row \<open>i\<close>.\<close>

function updateMatrix_columns ::
  "('p, 'b, 'c) World \<Rightarrow> Size \<Rightarrow> nat \<Rightarrow> nat \<Rightarrow> ('p, 'b, 'c) BaseCorrelationTermStructure
     \<Rightarrow> 'p Error + ('p, 'b, 'c) BaseCorrelationTermStructure" where
  "updateMatrix_columns w tsi i j s =
     (if j < columns (correlations s) then
        (if i < length (correlHandles s)
            \<and> unat (tsi + of_nat j) < length (correlHandles s ! i)
         then updateMatrix_columns w tsi i (j + 1)
                (s\<lparr>correlations := setElem (correlations s) i j
                      (quoteValue w (correlHandles s ! i ! unat (tsi + of_nat j)))\<rparr>)
         else Inl UndefinedBehaviour)
      else Inr s)"
  by pat_completeness auto
termination
  by (relation "measure (\<lambda>(w, tsi, i, j, s). columns (correlations s) - j)")
     (auto simp: setElem_def)

declare updateMatrix_columns.simps [simp del]

text \<open>The outer loop over \<open>i\<close>.\<close>

function updateMatrix_rows ::
  "('p, 'b, 'c) World \<Rightarrow> Size \<Rightarrow> nat \<Rightarrow> ('p, 'b, 'c) BaseCorrelationTermStructure
     \<Rightarrow> 'p Error + ('p, 'b, 'c) BaseCorrelationTermStructure" where
  "updateMatrix_rows w tsi i s =
     (if i < rows (correlations s) then
        (case updateMatrix_columns w tsi i 0 s of
           Inl e \<Rightarrow> Inl e
         | Inr s' \<Rightarrow> updateMatrix_rows w tsi (i + 1) s')
      else Inr s)"
  by pat_completeness auto
termination
proof (relation "measure (\<lambda>(w, tsi, i, s). rows (correlations s) - i)")
  show "wf (measure (\<lambda>(w :: ('p, 'b, 'c) World, tsi :: Size, i :: nat,
              s :: ('p, 'b, 'c) BaseCorrelationTermStructure). rows (correlations s) - i))"
    by simp
next
  fix w :: "('p, 'b, 'c) World" and tsi :: Size and i :: nat
    and s s' :: "('p, 'b, 'c) BaseCorrelationTermStructure"
  assume lt: "i < rows (correlations s)"
    and run: "updateMatrix_columns w tsi i 0 s = Inr s'"
  have keep: "updateMatrix_columns w tsi i j t = Inr t'
      \<Longrightarrow> rows (correlations t') = rows (correlations t)" for j t t'
  proof (induction w tsi i j t rule: updateMatrix_columns.induct)
    case (1 w tsi i j t)
    from "1.prems" show ?case
      by (subst (asm) updateMatrix_columns.simps)
         (auto simp: setElem_def split: if_splits dest!: "1.IH")
  qed
  from keep [OF run] lt
  show "((w, tsi, i + 1, s'), (w, tsi, i, s))
          \<in> measure (\<lambda>(w, tsi, i, s). rows (correlations s) - i)"
    by simp
qed

declare updateMatrix_rows.simps [simp del]

definition updateMatrix ::
  "('p, 'b, 'c) World \<Rightarrow> ('p, 'b, 'c) BaseCorrelationTermStructure
     \<Rightarrow> 'p Error + ('p, 'b, 'c) BaseCorrelationTermStructure" where
  "updateMatrix w s =
     (if correlHandles s = [] then Inl UndefinedBehaviour
      else updateMatrix_rows w (tenorStartIndex s) 0 s)"

subsection \<open>registerWithMarketData\<close>

function registerWithMarketData_columns ::
  "('p, 'b, 'c) World \<Rightarrow> nat \<Rightarrow> nat \<Rightarrow> ('p, 'b, 'c) BaseCorrelationTermStructure
     \<Rightarrow> 'p Error + ('p, 'b, 'c) BaseCorrelationTermStructure" where
  "registerWithMarketData_columns w i j s =
     (if correlHandles s = [] then Inl UndefinedBehaviour
      else if j < length (hd (correlHandles s)) then
        (if i < length (correlHandles s) \<and> j < length (correlHandles s ! i)
         then registerWithMarketData_columns w i (j + 1)
                (s\<lparr>base := registerWith w (correlHandles s ! i ! j) (base s)\<rparr>)
         else Inl UndefinedBehaviour)
      else Inr s)"
  by pat_completeness auto
termination
  by (relation "measure (\<lambda>(w, i, j, s). length (hd (correlHandles s)) - j)") auto

declare registerWithMarketData_columns.simps [simp del]

function registerWithMarketData_rows ::
  "('p, 'b, 'c) World \<Rightarrow> nat \<Rightarrow> ('p, 'b, 'c) BaseCorrelationTermStructure
     \<Rightarrow> 'p Error + ('p, 'b, 'c) BaseCorrelationTermStructure" where
  "registerWithMarketData_rows w i s =
     (if i < length (correlHandles s) then
        (case registerWithMarketData_columns w i 0 s of
           Inl e \<Rightarrow> Inl e
         | Inr s' \<Rightarrow> registerWithMarketData_rows w (i + 1) s')
      else Inr s)"
  by pat_completeness auto
termination
proof (relation "measure (\<lambda>(w, i, s). length (correlHandles s) - i)")
  show "wf (measure (\<lambda>(w :: ('p, 'b, 'c) World, i :: nat,
              s :: ('p, 'b, 'c) BaseCorrelationTermStructure). length (correlHandles s) - i))"
    by simp
next
  fix w :: "('p, 'b, 'c) World" and i :: nat
    and s s' :: "('p, 'b, 'c) BaseCorrelationTermStructure"
  assume lt: "i < length (correlHandles s)"
    and run: "registerWithMarketData_columns w i 0 s = Inr s'"
  have keep: "registerWithMarketData_columns w i j t = Inr t'
      \<Longrightarrow> correlHandles t' = correlHandles t" for j t t'
  proof (induction w i j t rule: registerWithMarketData_columns.induct)
    case (1 w i j t)
    from "1.prems" show ?case
      by (subst (asm) registerWithMarketData_columns.simps)
         (auto split: if_splits dest!: "1.IH")
  qed
  from keep [OF run] lt
  show "((w, i + 1, s'), (w, i, s)) \<in> measure (\<lambda>(w, i, s). length (correlHandles s) - i)"
    by simp
qed

declare registerWithMarketData_rows.simps [simp del]

definition registerWithMarketData ::
  "('p, 'b, 'c) World \<Rightarrow> ('p, 'b, 'c) BaseCorrelationTermStructure
     \<Rightarrow> 'p Error + ('p, 'b, 'c) BaseCorrelationTermStructure" where
  "registerWithMarketData w s = registerWithMarketData_rows w 0 s"

subsection \<open>The interpolation object\<close>

text \<open>
  Modelled from the spec: \<^verbatim>\<open>setupInterpolation\<close>, which the header declares and does not
  define (each interpolation algorithm has its own specialisation, outside the header), and
  the call operator of \<^verbatim>\<open>Interpolation2D\<close>. The spec has the surface ``built over (MaturityTimeGrid
  x LossLevelSequence x CorrelationSnapshot)'', and a query that ``fails with
  ExtrapolationNotAllowed when the query point lies outside the grid bounds and
  extrapolation is disabled; otherwise extrapolates per the chosen algorithm's
  definition''. The algorithm's own arithmetic is the pair \<open>buildInterpolation\<close>,
  \<open>interpolationValue\<close> of the collaborators. The object is given the three members by
  reference, so \<open>interpolationValue\<close> receives their current contents next to what was
  computed when the object was built. That the arrays along each axis are strictly
  increasing is, in the spec, a requirement on the data given to the interpolation and no
  check of its own: the build step is total.
\<close>

definition setupInterpolation ::
  "('p, 'b, 'c) World \<Rightarrow> ('p, 'b, 'c) BaseCorrelationTermStructure
     \<Rightarrow> ('p, 'b, 'c) BaseCorrelationTermStructure" where
  "setupInterpolation w s =
     s\<lparr>interpolation :=
         Some (buildInterpolation w (trancheTimes s) (lossLevel s) (correlations s))\<rparr>"

text \<open>
  Modelled from the spec: the grid bounds of the interpolation, the first and last knot in
  each direction (``the query point lies outside the grid bounds'').
\<close>

definition isInRange :: "real list \<Rightarrow> real list \<Rightarrow> real \<Rightarrow> real \<Rightarrow> bool" where
  "isInRange xs ys x y =
     (xs \<noteq> [] \<and> ys \<noteq> [] \<and> hd xs \<le> x \<and> x \<le> last xs \<and> hd ys \<le> y \<and> y \<le> last ys)"

text \<open>
  Modelled from the spec: the call operator \<^verbatim>\<open>interpolation_(x, y, allowExtrapolation)\<close> of
  \<^verbatim>\<open>Interpolation2D\<close>. Calling an object that \<^verbatim>\<open>setupInterpolation\<close> has not set up is
  undefined behaviour.
\<close>

definition interpolate ::
  "('p, 'b, 'c) World \<Rightarrow> ('p, 'b, 'c) BaseCorrelationTermStructure
     \<Rightarrow> real \<Rightarrow> real \<Rightarrow> bool \<Rightarrow> 'p Error + real" where
  "interpolate w s x y allowExtrapolation =
     (case interpolation s of
        None \<Rightarrow> Inl UndefinedBehaviour
      | Some c \<Rightarrow>
          if allowExtrapolation \<or> isInRange (trancheTimes s) (lossLevel s) x y
          then Inr (interpolationValue w c (trancheTimes s) (lossLevel s) (correlations s) x y)
          else Inl ExtrapolationNotAllowed)"

subsection \<open>The constructor\<close>

text \<open>The body of the loop over the tenors, up to the date \<open>d\<close> it computes.\<close>

definition maturity ::
  "('p, 'b, 'c) World \<Rightarrow> Date \<Rightarrow> Rule option \<Rightarrow> 'p \<Rightarrow> 'p Error + Date" where
  "maturity w start rule tenor =
     (case rule of
        Some r \<Rightarrow>
          (let d = plusPeriod w start tenor;
               d = (if r = CDS2015 \<or> r = CDS \<or> r = OldCDS
                    then cdsMaturity w start tenor r else d);
               schedule = makeSchedule w start d r
           in if schedule = [] then Inl UndefinedBehaviour
              else Inr (adjust w (last schedule)))
      | None \<Rightarrow> Inr (advance w start tenor))"

function generateTrancheDates ::
  "('p, 'b, 'c) World \<Rightarrow> Date \<Rightarrow> Date \<Rightarrow> Rule option \<Rightarrow> nat
     \<Rightarrow> ('p, 'b, 'c) BaseCorrelationTermStructure
     \<Rightarrow> 'p Error + ('p, 'b, 'c) BaseCorrelationTermStructure" where
  "generateTrancheDates w refDate start rule i s =
     (if i < length (tenors s) then
        (case maturity w start rule (tenors s ! i) of
           Inl e \<Rightarrow> Inl e
         | Inr d \<Rightarrow>
             if d \<le> refDate then generateTrancheDates w refDate start rule (i + 1) s
             else generateTrancheDates w refDate start rule (i + 1)
                    (s\<lparr>trancheDates := trancheDates s @ [d]\<rparr>))
      else Inr s)"
  by pat_completeness auto
termination
  by (relation "measure (\<lambda>(w, refDate, start, rule, i, s). length (tenors s) - i)") auto

declare generateTrancheDates.simps [simp del]

definition construct ::
  "('p, 'b, 'c) World \<Rightarrow> 'b \<Rightarrow> 'p list \<Rightarrow> real list \<Rightarrow> QuoteHandle list list \<Rightarrow> Date
     \<Rightarrow> Rule option \<Rightarrow> 'p Error + ('p, 'b, 'c) BaseCorrelationTermStructure" where
  "construct w b tenorsArg lossLevelArg correls startDate rule =
     (let s = \<lparr>correlHandles = correls, correlations = newMatrix 0 0 0,
               interpolation = None, nLosses = length lossLevelArg, tenors = tenorsArg,
               lossLevel = lossLevelArg, trancheDates = [], trancheTimes = [], base = b\<rparr>
      in case checkTrancheTenors w s of
           Inl e \<Rightarrow> Inl e
         | Inr _ \<Rightarrow>
             (let refDate = referenceDate w;
                  start = (if startDate = nullDate then refDate else startDate)
              in case generateTrancheDates w refDate start rule 0 s of
                   Inl e \<Rightarrow> Inl e
                 | Inr s \<Rightarrow>
                     if trancheDates s = [] then Inl (InvalidInput NoTrancheDatesLeft)
                     else
                       (let s = s\<lparr>correlations :=
                                    newMatrix (length correls) (length (trancheDates s)) 0\<rparr>;
                            s = initializeTrancheTimes w s
                        in case checkInputs s (rows (correlations s))
                                  (columns (correlations s)) of
                             Inl e \<Rightarrow> Inl e
                           | Inr _ \<Rightarrow>
                               (case updateMatrix w s of
                                  Inl e \<Rightarrow> Inl e
                                | Inr s \<Rightarrow>
                                    (case registerWithMarketData w s of
                                       Inl e \<Rightarrow> Inl e
                                     | Inr s \<Rightarrow> Inr (setupInterpolation w s))))))"

subsection \<open>update, maxDate, correlation\<close>

definition update ::
  "('p, 'b, 'c) World \<Rightarrow> ('p, 'b, 'c) BaseCorrelationTermStructure
     \<Rightarrow> 'p Error + ('p, 'b, 'c) BaseCorrelationTermStructure" where
  "update w s =
     (case updateMatrix w s of
        Inl e \<Rightarrow> Inl e
      | Inr s \<Rightarrow> Inr (s\<lparr>base := termStructureUpdate w (base s)\<rparr>))"

definition maxDate :: "('p, 'b, 'c) BaseCorrelationTermStructure \<Rightarrow> 'p Error + Date" where
  "maxDate s =
     (if trancheDates s = [] then Inl UndefinedBehaviour else Inr (last (trancheDates s)))"

text \<open>\<^verbatim>\<open>correlation(Time t, Real lossLevel, bool extrapolate)\<close>\<close>

definition correlation ::
  "('p, 'b, 'c) World \<Rightarrow> ('p, 'b, 'c) BaseCorrelationTermStructure
     \<Rightarrow> real \<Rightarrow> real \<Rightarrow> bool \<Rightarrow> 'p Error + real" where
  "correlation w s t l extrapolate = interpolate w s t l True"

text \<open>\<^verbatim>\<open>correlation(const Date& d, Real lossLevel, bool extrapolate)\<close>\<close>

definition correlationAtDate ::
  "('p, 'b, 'c) World \<Rightarrow> ('p, 'b, 'c) BaseCorrelationTermStructure
     \<Rightarrow> Date \<Rightarrow> real \<Rightarrow> bool \<Rightarrow> 'p Error + real" where
  "correlationAtDate w s d l extrapolate =
     correlation w s (timeFromReference w d) l extrapolate"

section \<open>An example market and structure\<close>

text \<open>
  Concrete collaborators, used to run the model: tenors are whole months, a month has 30
  days, the calendar has no holidays, the year has 360 days, the quote behind handle \<open>h\<close>
  is worth \<open>h / 100\<close>, the base-class state is the list of registered handles, and the
  interpolation is piecewise constant (the value at the last knot not above the query point,
  in each direction), hence flat outside the grid; it computes nothing when it is built and
  reads the three members at each query. With a rule, the schedule ends three days after
  the date it is asked to reach, and adjusting a date moves it two days on.
\<close>

definition flatIndex :: "real list \<Rightarrow> real \<Rightarrow> nat" where
  "flatIndex ks x = length (takeWhile (\<lambda>k. k \<le> x) ks) - 1"

definition exampleWorld :: "(int, QuoteHandle list, unit) World" where
  "exampleWorld =
     \<lparr>referenceDate = 100,
      timeFromReference = (\<lambda>d. real_of_int (d - 100) / 360),
      quoteValue = (\<lambda>h. real h / 100),
      periodGt = (\<lambda>p q. p > q),
      zeroDays = 0,
      plusPeriod = (\<lambda>d p. d + 30 * p),
      cdsMaturity = (\<lambda>d p r. d + 30 * p + 20),
      makeSchedule = (\<lambda>a b r. [a, b + 3]),
      adjust = (\<lambda>d. d + 2),
      advance = (\<lambda>d p. d + 30 * p),
      registerWith = (\<lambda>h b. h # b),
      termStructureUpdate = (\<lambda>b. b),
      buildInterpolation = (\<lambda>xs ys zs. ()),
      interpolationValue = (\<lambda>c xs ys zs x y. elem zs (flatIndex ys y) (flatIndex xs x))\<rparr>"

text \<open>
  The same market thirty days later: the reference date has moved from 100 to 130 and every
  quote has doubled.
\<close>

definition laterWorld :: "(int, QuoteHandle list, unit) World" where
  "laterWorld =
     exampleWorld\<lparr>referenceDate := 130,
                  timeFromReference := (\<lambda>d. real_of_int (d - 130) / 360),
                  quoteValue := (\<lambda>h. real h / 50)\<rparr>"

text \<open>A table of nine quotes, three loss levels by three tenors.\<close>

definition exampleHandles :: "QuoteHandle list list" where
  "exampleHandles = [[1, 2, 3], [4, 5, 6], [7, 8, 9]]"

text \<open>
  The structure built in the example market for the tenors 3M, 6M, 1Y and the loss levels
  3\%, 7\%, 10\%, with no start date and no rule.
\<close>

definition exampleStructure ::
  "(int, QuoteHandle list, unit) BaseCorrelationTermStructure" where
  "exampleStructure =
     projr (construct exampleWorld [] [3, 6, 12] [0.03, 0.07, 0.10] exampleHandles
              nullDate None)"

text \<open>
  The example structure as it would be once the 3M tenor has expired: two dates are left and
  the matrix has two columns, while the table of handles keeps its three columns.
\<close>

definition truncatedStructure ::
  "(int, QuoteHandle list, unit) BaseCorrelationTermStructure" where
  "truncatedStructure =
     exampleStructure\<lparr>correlations := newMatrix 3 2 0, trancheDates := [280, 460],
                       trancheTimes := [1 / 2, 1]\<rparr>"

section \<open>Facts about the loops\<close>

subsection \<open>checkTrancheTenors\<close>

lemma checkTrancheTenors_loop_ok:
  "(checkTrancheTenors_loop w ts i = Inr ()) =
     (\<forall>k. i \<le> k \<and> k < length ts \<longrightarrow> periodGt w (ts ! k) (ts ! (k - 1)))"
proof (induction w ts i rule: checkTrancheTenors_loop.induct)
  case (1 w ts i)
  show ?case
  proof (cases "i < length ts")
    case False
    then show ?thesis by (subst checkTrancheTenors_loop.simps) auto
  next
    case True
    show ?thesis
    proof (cases "periodGt w (ts ! i) (ts ! (i - 1))")
      case False
      with True show ?thesis
        by (subst checkTrancheTenors_loop.simps) auto
    next
      case gt: True
      have "(\<forall>k. i \<le> k \<and> k < length ts \<longrightarrow> periodGt w (ts ! k) (ts ! (k - 1)))
          = (\<forall>k. i + 1 \<le> k \<and> k < length ts \<longrightarrow> periodGt w (ts ! k) (ts ! (k - 1)))"
        using gt by (metis Suc_eq_plus1 Suc_leI le_neq_implies_less Suc_leD)
      with True gt "1.IH" show ?thesis
        by (subst checkTrancheTenors_loop.simps) simp
    qed
  qed
qed

lemma checkTrancheTenors_loop_first_failure:
  "i \<le> k \<Longrightarrow> k < length ts \<Longrightarrow> \<not> periodGt w (ts ! k) (ts ! (k - 1))
   \<Longrightarrow> (\<And>m. i \<le> m \<Longrightarrow> m < k \<Longrightarrow> periodGt w (ts ! m) (ts ! (m - 1)))
   \<Longrightarrow> checkTrancheTenors_loop w ts i
         = Inl (InvalidInput (NonIncreasingTenor k (ts ! (k - 1)) (k + 1) (ts ! k)))"
proof (induction w ts i rule: checkTrancheTenors_loop.induct)
  case (1 w ts i)
  show ?case
  proof (cases "i = k")
    case True
    with "1.prems" show ?thesis
      by (subst checkTrancheTenors_loop.simps) simp
  next
    case False
    with "1.prems" have lt: "i < k" "i < length ts" and gt: "periodGt w (ts ! i) (ts ! (i - 1))"
      by auto
    have "checkTrancheTenors_loop w ts (i + 1)
            = Inl (InvalidInput (NonIncreasingTenor k (ts ! (k - 1)) (k + 1) (ts ! k)))"
      using lt gt "1.prems" by (intro "1.IH") auto
    with lt gt show ?thesis
      by (subst checkTrancheTenors_loop.simps) simp
  qed
qed

lemma checkTrancheTenors_loop_error:
  "checkTrancheTenors_loop w ts i = Inl e \<Longrightarrow> \<exists>m. e = InvalidInput m"
proof (induction w ts i rule: checkTrancheTenors_loop.induct)
  case (1 w ts i)
  from "1.prems" show ?case
    by (subst (asm) checkTrancheTenors_loop.simps) (auto split: if_splits dest: "1.IH")
qed

subsection \<open>The date and time grids\<close>

lemma generateTrancheDates_result:
  "length ds = length (tenors s)
   \<Longrightarrow> (\<And>k. i \<le> k \<Longrightarrow> k < length (tenors s)
          \<Longrightarrow> maturity w start rule (tenors s ! k) = Inr (ds ! k))
   \<Longrightarrow> generateTrancheDates w refDate start rule i s
         = Inr (s\<lparr>trancheDates := trancheDates s @ filter (\<lambda>d. refDate < d) (drop i ds)\<rparr>)"
proof (induction w refDate start rule i s rule: generateTrancheDates.induct)
  case (1 w refDate start rule i s)
  show ?case
  proof (cases "i < length (tenors s)")
    case False
    with "1.prems" show ?thesis
      by (subst generateTrancheDates.simps) simp
  next
    case True
    then have m: "maturity w start rule (tenors s ! i) = Inr (ds ! i)"
      using "1.prems" by simp
    have dr: "drop i ds = ds ! i # drop (i + 1) ds"
      using True "1.prems"(1) by (simp add: Cons_nth_drop_Suc)
    show ?thesis
    proof (cases "ds ! i \<le> refDate")
      case le: True
      have "generateTrancheDates w refDate start rule (i + 1) s
              = Inr (s\<lparr>trancheDates :=
                         trancheDates s @ filter (\<lambda>d. refDate < d) (drop (i + 1) ds)\<rparr>)"
        using True m le "1.prems" by (intro "1.IH"(1)) auto
      with True m le dr show ?thesis
        by (subst generateTrancheDates.simps) simp
    next
      case gt: False
      let ?s = "s\<lparr>trancheDates := trancheDates s @ [ds ! i]\<rparr>"
      have "generateTrancheDates w refDate start rule (i + 1) ?s
              = Inr (?s\<lparr>trancheDates :=
                          trancheDates ?s @ filter (\<lambda>d. refDate < d) (drop (i + 1) ds)\<rparr>)"
        using True m gt "1.prems" by (intro "1.IH"(2)) auto
      with True m gt dr show ?thesis
        by (subst generateTrancheDates.simps) simp
    qed
  qed
qed

lemma initializeTrancheTimes_loop_result:
  "length (trancheTimes s) = length (trancheDates s) \<Longrightarrow> i \<le> length (trancheDates s)
   \<Longrightarrow> initializeTrancheTimes_loop w i s
         = s\<lparr>trancheTimes := take i (trancheTimes s)
                               @ map (timeFromReference w) (drop i (trancheDates s))\<rparr>"
proof (induction w i s rule: initializeTrancheTimes_loop.induct)
  case (1 w i s)
  show ?case
  proof (cases "i < length (trancheDates s)")
    case False
    with "1.prems" show ?thesis
      by (subst initializeTrancheTimes_loop.simps) simp
  next
    case True
    let ?s = "s\<lparr>trancheTimes := (trancheTimes s)[i := timeFromReference w (trancheDates s ! i)]\<rparr>"
    have ih: "initializeTrancheTimes_loop w (i + 1) ?s
            = ?s\<lparr>trancheTimes := take (i + 1) (trancheTimes ?s)
                               @ map (timeFromReference w) (drop (i + 1) (trancheDates ?s))\<rparr>"
      using True "1.prems" by (intro "1.IH") auto
    have "take (i + 1) ((trancheTimes s)[i := timeFromReference w (trancheDates s ! i)])
            = take i (trancheTimes s) @ [timeFromReference w (trancheDates s ! i)]"
      using True "1.prems" by (simp add: take_Suc_conv_app_nth)
    moreover have "drop i (trancheDates s) = trancheDates s ! i # drop (i + 1) (trancheDates s)"
      using True by (simp add: Cons_nth_drop_Suc)
    ultimately show ?thesis
      using True ih by (subst initializeTrancheTimes_loop.simps) simp
  qed
qed

lemma initializeTrancheTimes_result:
  "initializeTrancheTimes w s
     = s\<lparr>trancheTimes := map (timeFromReference w) (trancheDates s)\<rparr>"
  by (simp add: initializeTrancheTimes_def resize_def initializeTrancheTimes_loop_result)

subsection \<open>updateMatrix\<close>

lemma updateMatrix_columns_result:
  "updateMatrix_columns w tsi i j s =
     (if \<forall>k. j \<le> k \<and> k < columns (correlations s)
            \<longrightarrow> i < length (correlHandles s)
                \<and> unat (tsi + of_nat k) < length (correlHandles s ! i)
      then Inr (s\<lparr>correlations := (correlations s)\<lparr>elem := (\<lambda>a b.
                  if a = i \<and> j \<le> b \<and> b < columns (correlations s)
                  then quoteValue w (correlHandles s ! i ! unat (tsi + of_nat b))
                  else elem (correlations s) a b)\<rparr>\<rparr>)
      else Inl UndefinedBehaviour)"
proof (induction w tsi i j s rule: updateMatrix_columns.induct)
  case (1 w tsi i j s)
  let ?ok = "\<lambda>k. i < length (correlHandles s)
                \<and> unat (tsi + of_nat k) < length (correlHandles s ! i)"
  let ?q = "\<lambda>b. quoteValue w (correlHandles s ! i ! unat (tsi + of_nat b))"
  show ?case
  proof (cases "j < columns (correlations s)")
    case False
    then have "(\<lambda>a b. if a = i \<and> j \<le> b \<and> b < columns (correlations s) then ?q b
                  else elem (correlations s) a b) = elem (correlations s)"
      by (intro ext) auto
    with False show ?thesis
      by (subst updateMatrix_columns.simps) auto
  next
    case True
    show ?thesis
    proof (cases "?ok j")
      case False
      with True have "\<not> (\<forall>k. j \<le> k \<and> k < columns (correlations s) \<longrightarrow> ?ok k)"
        by (metis order_refl)
      with True False show ?thesis
        by (subst updateMatrix_columns.simps) (simp only: if_True if_False)
    next
      case ok: True
      let ?s = "s\<lparr>correlations := setElem (correlations s) i j (?q j)\<rparr>"
      have condeq: "(\<forall>k. j + 1 \<le> k \<and> k < columns (correlations ?s)
            \<longrightarrow> i < length (correlHandles ?s)
                \<and> unat (tsi + of_nat k) < length (correlHandles ?s ! i))
          = (\<forall>k. j + 1 \<le> k \<and> k < columns (correlations s) \<longrightarrow> ?ok k)"
        by (simp add: setElem_def)
      have receq: "?s\<lparr>correlations := (correlations ?s)\<lparr>elem := (\<lambda>a b.
                  if a = i \<and> j + 1 \<le> b \<and> b < columns (correlations ?s)
                  then quoteValue w (correlHandles ?s ! i ! unat (tsi + of_nat b))
                  else elem (correlations ?s) a b)\<rparr>\<rparr>
          = s\<lparr>correlations := (correlations s)\<lparr>elem := (\<lambda>a b.
                  if a = i \<and> j \<le> b \<and> b < columns (correlations s) then ?q b
                  else elem (correlations s) a b)\<rparr>\<rparr>"
      proof -
        have "(\<lambda>a b. if a = i \<and> j + 1 \<le> b \<and> b < columns (correlations ?s)
                  then quoteValue w (correlHandles ?s ! i ! unat (tsi + of_nat b))
                  else elem (correlations ?s) a b)
            = (\<lambda>a b. if a = i \<and> j \<le> b \<and> b < columns (correlations s) then ?q b
                  else elem (correlations s) a b)"
          using True by (intro ext) (auto simp: setElem_def)
        then show ?thesis by (simp add: setElem_def)
      qed
      note ih = "1.IH" [OF True ok, unfolded condeq receq]
      have step: "updateMatrix_columns w tsi i j s = updateMatrix_columns w tsi i (j + 1) ?s"
        using True ok by (subst updateMatrix_columns.simps) simp
      have "(\<forall>k. j \<le> k \<and> k < columns (correlations s) \<longrightarrow> ?ok k)
          = (\<forall>k. j + 1 \<le> k \<and> k < columns (correlations s) \<longrightarrow> ?ok k)"
        using ok by (metis Suc_eq_plus1 Suc_leI le_neq_implies_less Suc_leD)
      then show ?thesis
        unfolding step ih by (simp only:)
    qed
  qed
qed

lemma updateMatrix_rows_result:
  "updateMatrix_rows w tsi i s =
     (if \<forall>a k. i \<le> a \<and> a < rows (correlations s) \<and> k < columns (correlations s)
            \<longrightarrow> a < length (correlHandles s)
                \<and> unat (tsi + of_nat k) < length (correlHandles s ! a)
      then Inr (s\<lparr>correlations := (correlations s)\<lparr>elem := (\<lambda>a b.
                  if i \<le> a \<and> a < rows (correlations s) \<and> b < columns (correlations s)
                  then quoteValue w (correlHandles s ! a ! unat (tsi + of_nat b))
                  else elem (correlations s) a b)\<rparr>\<rparr>)
      else Inl UndefinedBehaviour)"
proof (induction w tsi i s rule: updateMatrix_rows.induct)
  case (1 w tsi i s)
  let ?ok = "\<lambda>a k. a < length (correlHandles s)
                \<and> unat (tsi + of_nat k) < length (correlHandles s ! a)"
  let ?q = "\<lambda>a b. quoteValue w (correlHandles s ! a ! unat (tsi + of_nat b))"
  show ?case
  proof (cases "i < rows (correlations s)")
    case False
    then have "(\<lambda>a b. if i \<le> a \<and> a < rows (correlations s) \<and> b < columns (correlations s)
                  then ?q a b else elem (correlations s) a b) = elem (correlations s)"
      by (intro ext) auto
    with False show ?thesis
      by (subst updateMatrix_rows.simps) auto
  next
    case True
    show ?thesis
    proof (cases "\<forall>k. k < columns (correlations s) \<longrightarrow> ?ok i k")
      case False
      then have inner: "updateMatrix_columns w tsi i 0 s = Inl UndefinedBehaviour"
        by (subst updateMatrix_columns_result) auto
      from False True
      have "\<not> (\<forall>a k. i \<le> a \<and> a < rows (correlations s) \<and> k < columns (correlations s)
                  \<longrightarrow> ?ok a k)"
        by (metis order_refl)
      with True inner show ?thesis
        by (subst updateMatrix_rows.simps) (simp only: if_True if_False sum.case)
    next
      case ok: True
      let ?g = "\<lambda>a b. if a = i \<and> 0 \<le> b \<and> b < columns (correlations s) then ?q i b
                  else elem (correlations s) a b"
      let ?s = "s\<lparr>correlations := (correlations s)\<lparr>elem := ?g\<rparr>\<rparr>"
      have inner: "updateMatrix_columns w tsi i 0 s = Inr ?s"
        by (subst updateMatrix_columns_result, rule if_P) (use ok in simp)
      have condeq: "(\<forall>a k. i + 1 \<le> a \<and> a < rows (correlations ?s)
                \<and> k < columns (correlations ?s)
            \<longrightarrow> a < length (correlHandles ?s)
                \<and> unat (tsi + of_nat k) < length (correlHandles ?s ! a))
          = (\<forall>a k. i + 1 \<le> a \<and> a < rows (correlations s) \<and> k < columns (correlations s)
                \<longrightarrow> ?ok a k)"
        by simp
      have receq: "?s\<lparr>correlations := (correlations ?s)\<lparr>elem := (\<lambda>a b.
                  if i + 1 \<le> a \<and> a < rows (correlations ?s) \<and> b < columns (correlations ?s)
                  then quoteValue w (correlHandles ?s ! a ! unat (tsi + of_nat b))
                  else elem (correlations ?s) a b)\<rparr>\<rparr>
          = s\<lparr>correlations := (correlations s)\<lparr>elem := (\<lambda>a b.
                  if i \<le> a \<and> a < rows (correlations s) \<and> b < columns (correlations s)
                  then ?q a b else elem (correlations s) a b)\<rparr>\<rparr>"
      proof -
        have "(\<lambda>a b.
                  if i + 1 \<le> a \<and> a < rows (correlations ?s) \<and> b < columns (correlations ?s)
                  then quoteValue w (correlHandles ?s ! a ! unat (tsi + of_nat b))
                  else elem (correlations ?s) a b)
            = (\<lambda>a b.
                  if i \<le> a \<and> a < rows (correlations s) \<and> b < columns (correlations s)
                  then ?q a b else elem (correlations s) a b)"
          using True by (intro ext) auto
        then show ?thesis by simp
      qed
      note ih = "1.IH" [OF True inner, unfolded condeq receq]
      have step: "updateMatrix_rows w tsi i s = updateMatrix_rows w tsi (i + 1) ?s"
        using True inner by (subst updateMatrix_rows.simps) simp
      have "(\<forall>a k. i \<le> a \<and> a < rows (correlations s) \<and> k < columns (correlations s)
                \<longrightarrow> ?ok a k)
          = (\<forall>a k. i + 1 \<le> a \<and> a < rows (correlations s) \<and> k < columns (correlations s)
                \<longrightarrow> ?ok a k)"
        using ok by (metis Suc_eq_plus1 Suc_leI le_neq_implies_less Suc_leD)
      then show ?thesis
        unfolding step ih by (simp only:)
    qed
  qed
qed

lemma updateMatrix_result:
  "updateMatrix w s =
     (if correlHandles s \<noteq> []
         \<and> (\<forall>a k. a < rows (correlations s) \<and> k < columns (correlations s)
               \<longrightarrow> a < length (correlHandles s)
                   \<and> unat (tenorStartIndex s + of_nat k) < length (correlHandles s ! a))
      then Inr (s\<lparr>correlations := (correlations s)\<lparr>elem := (\<lambda>a b.
                  if a < rows (correlations s) \<and> b < columns (correlations s)
                  then quoteValue w (correlHandles s ! a ! unat (tenorStartIndex s + of_nat b))
                  else elem (correlations s) a b)\<rparr>\<rparr>)
      else Inl UndefinedBehaviour)"
  by (simp add: updateMatrix_def updateMatrix_rows_result)

lemma updateMatrix_frame:
  assumes "updateMatrix w s = Inr s'"
  shows "s' = s\<lparr>correlations := correlations s'\<rparr>"
    and "rows (correlations s') = rows (correlations s)"
    and "columns (correlations s') = columns (correlations s)"
  using assms by (auto simp: updateMatrix_result split: if_splits)

lemma registerWithMarketData_columns_result:
  "correlHandles s \<noteq> []
   \<Longrightarrow> (\<And>k. j \<le> k \<Longrightarrow> k < length (hd (correlHandles s))
      \<Longrightarrow> i < length (correlHandles s) \<and> k < length (correlHandles s ! i))
   \<Longrightarrow> \<exists>b. registerWithMarketData_columns w i j s = Inr (s\<lparr>base := b\<rparr>)"
proof (induction w i j s rule: registerWithMarketData_columns.induct)
  case (1 w i j s)
  note ne = "1.prems"(1) and cover = "1.prems"(2)
  show ?case
  proof (cases "j < length (hd (correlHandles s))")
    case False
    with ne have "registerWithMarketData_columns w i j s = Inr (s\<lparr>base := base s\<rparr>)"
      by (subst registerWithMarketData_columns.simps) simp
    then show ?thesis by blast
  next
    case True
    have ok: "i < length (correlHandles s) \<and> j < length (correlHandles s ! i)"
      using cover [OF order_refl True] .
    let ?s = "s\<lparr>base := registerWith w (correlHandles s ! i ! j) (base s)\<rparr>"
    have "\<exists>b. registerWithMarketData_columns w i (j + 1) ?s = Inr (?s\<lparr>base := b\<rparr>)"
    proof (rule "1.IH" [OF ne True ok])
      show "correlHandles ?s \<noteq> []"
        using ne by simp
    next
      fix k
      assume "j + 1 \<le> k" and "k < length (hd (correlHandles ?s))"
      then show "i < length (correlHandles ?s) \<and> k < length (correlHandles ?s ! i)"
        using cover [of k] by simp
    qed
    then obtain b where "registerWithMarketData_columns w i (j + 1) ?s = Inr (s\<lparr>base := b\<rparr>)"
      by auto
    with ne True ok have "registerWithMarketData_columns w i j s = Inr (s\<lparr>base := b\<rparr>)"
      by (subst registerWithMarketData_columns.simps) simp
    then show ?thesis by blast
  qed
qed

lemma registerWithMarketData_rows_result:
  "(\<And>a. a < length (correlHandles s)
      \<Longrightarrow> length (hd (correlHandles s)) \<le> length (correlHandles s ! a))
   \<Longrightarrow> \<exists>b. registerWithMarketData_rows w i s = Inr (s\<lparr>base := b\<rparr>)"
proof (induction w i s rule: registerWithMarketData_rows.induct)
  case (1 w i s)
  show ?case
  proof (cases "i < length (correlHandles s)")
    case False
    then have "registerWithMarketData_rows w i s = Inr (s\<lparr>base := base s\<rparr>)"
      by (subst registerWithMarketData_rows.simps) simp
    then show ?thesis by blast
  next
    case True
    have "\<exists>b. registerWithMarketData_columns w i 0 s = Inr (s\<lparr>base := b\<rparr>)"
      using True "1.prems" [OF True] by (intro registerWithMarketData_columns_result) auto
    then obtain b where inner: "registerWithMarketData_columns w i 0 s = Inr (s\<lparr>base := b\<rparr>)"
      by blast
    have "\<exists>b'. registerWithMarketData_rows w (i + 1) (s\<lparr>base := b\<rparr>)
                  = Inr (s\<lparr>base := b\<rparr>\<lparr>base := b'\<rparr>)"
      using "1.prems" by (intro "1.IH" [OF True inner]) simp
    then obtain b' where "registerWithMarketData_rows w (i + 1) (s\<lparr>base := b\<rparr>)
                  = Inr (s\<lparr>base := b'\<rparr>)"
      by auto
    with True inner have "registerWithMarketData_rows w i s = Inr (s\<lparr>base := b'\<rparr>)"
      by (subst registerWithMarketData_rows.simps) simp
    then show ?thesis by blast
  qed
qed

lemma tenorStartIndex_aligned:
  assumes "columns (correlations s) \<le> length (hd (correlHandles s))"
    and "length (hd (correlHandles s)) < 2 ^ 64"
    and "j < columns (correlations s)"
  shows "unat (tenorStartIndex s + of_nat j)
           = length (hd (correlHandles s)) - columns (correlations s) + j"
proof -
  let ?T = "length (hd (correlHandles s))" and ?C = "columns (correlations s)"
  have eq: "tenorStartIndex s + of_nat j = (of_nat (?T - ?C + j) :: Size)"
    using assms(1) by (simp add: tenorStartIndex_def)
  have lt: "?T - ?C + j < 2 ^ 64"
    using assms by linarith
  have "unat (tenorStartIndex s + of_nat j) = unat (of_nat (?T - ?C + j) :: Size)"
    by (simp only: eq)
  also have "\<dots> = (?T - ?C + j) mod 2 ^ 64"
    by (simp add: unat_of_nat del: of_nat_add)
  also have "\<dots> = ?T - ?C + j"
    using lt by simp
  finally show ?thesis .
qed

subsection \<open>A quote table that covers the matrix\<close>

lemma updateMatrix_covered:
  assumes "correlHandles s \<noteq> []"
    and "columns (correlations s) \<le> length (hd (correlHandles s))"
    and "length (hd (correlHandles s)) < 2 ^ 64"
    and "rows (correlations s) \<le> length (correlHandles s)"
    and "\<forall>i < rows (correlations s). length (hd (correlHandles s)) \<le> length (correlHandles s ! i)"
  shows "updateMatrix w s =
      Inr (s\<lparr>correlations := (correlations s)\<lparr>elem := (\<lambda>a b.
                  if a < rows (correlations s) \<and> b < columns (correlations s)
                  then quoteValue w (correlHandles s ! a ! unat (tenorStartIndex s + of_nat b))
                  else elem (correlations s) a b)\<rparr>\<rparr>)"
proof -
  have "a < length (correlHandles s)
          \<and> unat (tenorStartIndex s + of_nat k) < length (correlHandles s ! a)"
    if "a < rows (correlations s) \<and> k < columns (correlations s)" for a k
  proof -
    have "unat (tenorStartIndex s + of_nat k)
            = length (hd (correlHandles s)) - columns (correlations s) + k"
      using assms(2,3) that by (intro tenorStartIndex_aligned) simp_all
    also have "\<dots> < length (hd (correlHandles s))"
      using assms(2) that by linarith
    also have "\<dots> \<le> length (correlHandles s ! a)"
      using assms(5) that by simp
    finally show ?thesis
      using assms(4) that by simp
  qed
  then have "correlHandles s \<noteq> []
         \<and> (\<forall>a k. a < rows (correlations s) \<and> k < columns (correlations s)
               \<longrightarrow> a < length (correlHandles s)
                   \<and> unat (tenorStartIndex s + of_nat k) < length (correlHandles s ! a))"
    using assms(1) by blast
  then show ?thesis
    by (subst updateMatrix_result) (rule if_P)
qed

lemma registerWithMarketData_covered:
  "\<forall>a < length (correlHandles s). length (hd (correlHandles s)) \<le> length (correlHandles s ! a)
   \<Longrightarrow> \<exists>b. registerWithMarketData w s = Inr (s\<lparr>base := b\<rparr>)"
  unfolding registerWithMarketData_def
  by (rule registerWithMarketData_rows_result) simp

lemma updateMatrix_again:
  assumes "updateMatrix w s = Inr s'" and t: "t = s'\<lparr>base := b\<rparr>"
  shows "updateMatrix w t = Inr t"
proof -
  let ?ok = "correlHandles s \<noteq> []
         \<and> (\<forall>a k. a < rows (correlations s) \<and> k < columns (correlations s)
               \<longrightarrow> a < length (correlHandles s)
                   \<and> unat (tenorStartIndex s + of_nat k) < length (correlHandles s ! a))"
  let ?f = "\<lambda>a b. if a < rows (correlations s) \<and> b < columns (correlations s)
                  then quoteValue w (correlHandles s ! a ! unat (tenorStartIndex s + of_nat b))
                  else elem (correlations s) a b"
  from assms(1) have ok: ?ok
    by (auto simp: updateMatrix_result split: if_splits)
  with assms(1) have s': "s' = s\<lparr>correlations := (correlations s)\<lparr>elem := ?f\<rparr>\<rparr>"
    by (auto simp: updateMatrix_result split: if_splits)
  have sel: "correlHandles t = correlHandles s" "rows (correlations t) = rows (correlations s)"
    "columns (correlations t) = columns (correlations s)" "elem (correlations t) = ?f"
    "tenorStartIndex t = tenorStartIndex s"
    by (simp_all add: t s' tenorStartIndex_def)
  have ok': "correlHandles t \<noteq> []
         \<and> (\<forall>a k. a < rows (correlations t) \<and> k < columns (correlations t)
               \<longrightarrow> a < length (correlHandles t)
                   \<and> unat (tenorStartIndex t + of_nat k) < length (correlHandles t ! a))"
    unfolding sel using ok .
  have same: "(\<lambda>a b. if a < rows (correlations t) \<and> b < columns (correlations t)
                  then quoteValue w (correlHandles t ! a ! unat (tenorStartIndex t + of_nat b))
                  else elem (correlations t) a b) = elem (correlations t)"
    unfolding sel by (intro ext) simp
  have "updateMatrix w t
          = Inr (t\<lparr>correlations := (correlations t)\<lparr>elem :=
               (\<lambda>a b. if a < rows (correlations t) \<and> b < columns (correlations t)
                  then quoteValue w (correlHandles t ! a ! unat (tenorStartIndex t + of_nat b))
                  else elem (correlations t) a b)\<rparr>\<rparr>)"
    by (subst updateMatrix_result) (rule if_P [OF ok'])
  then show ?thesis
    unfolding same by simp
qed

subsection \<open>The constructor, stage by stage\<close>

lemma construct_tenor_error:
  "checkTrancheTenors w
     \<lparr>correlHandles = correls, correlations = newMatrix 0 0 0, interpolation = None,
      nLosses = length lossLevelArg, tenors = tenorsArg, lossLevel = lossLevelArg,
      trancheDates = [], trancheTimes = [], base = b\<rparr> = Inl e
   \<Longrightarrow> construct w b tenorsArg lossLevelArg correls startDate rule = Inl e"
  by (simp add: construct_def)

lemma checkTrancheTenors_ok:
  "tenors s \<noteq> [] \<Longrightarrow> periodGt w (tenors s ! 0) (zeroDays w)
   \<Longrightarrow> (\<And>k. 1 \<le> k \<Longrightarrow> k < length (tenors s)
          \<Longrightarrow> periodGt w (tenors s ! k) (tenors s ! (k - 1)))
   \<Longrightarrow> checkTrancheTenors w s = Inr ()"
  by (simp add: checkTrancheTenors_def checkTrancheTenors_loop_ok)

lemma maturities_list:
  assumes "\<And>k. k < length ts \<Longrightarrow> \<exists>d. maturity w start rule (ts ! k) = Inr d \<and> P d"
  shows "\<exists>ds. length ds = length ts
            \<and> (\<forall>k < length ts. maturity w start rule (ts ! k) = Inr (ds ! k) \<and> P (ds ! k))"
proof -
  let ?ds = "map (\<lambda>t. projr (maturity w start rule t)) ts"
  have "maturity w start rule (ts ! k) = Inr (?ds ! k) \<and> P (?ds ! k)" if "k < length ts" for k
    using assms [OF that] that by auto
  then show ?thesis
    by (intro exI [of _ ?ds]) simp
qed

lemma construct_dates:
  fixes w :: "('p, 'b, 'c) World"
  assumes tenorsOk: "checkTrancheTenors w
     \<lparr>correlHandles = correls, correlations = newMatrix 0 0 0, interpolation = None,
      nLosses = length lossLevelArg, tenors = tenorsArg, lossLevel = lossLevelArg,
      trancheDates = [], trancheTimes = [], base = b\<rparr> = Inr ()"
    and len: "length ds = length tenorsArg"
    and mat: "\<And>k. k < length tenorsArg
      \<Longrightarrow> maturity w (if startDate = nullDate then referenceDate w else startDate) rule
            (tenorsArg ! k) = Inr (ds ! k)"
    and kept: "kept = filter (\<lambda>d. referenceDate w < d) ds"
    and s: "s = \<lparr>correlHandles = correls,
                 correlations = newMatrix (length correls) (length kept) 0,
                 interpolation = None, nLosses = length lossLevelArg, tenors = tenorsArg,
                 lossLevel = lossLevelArg, trancheDates = kept,
                 trancheTimes = map (timeFromReference w) kept, base = b\<rparr>"
  shows "construct w b tenorsArg lossLevelArg correls startDate rule =
     (if kept = [] then Inl (InvalidInput NoTrancheDatesLeft)
      else case checkInputs s (length correls) (length kept) of
             Inl e \<Rightarrow> Inl e
           | Inr _ \<Rightarrow>
               (case updateMatrix w s of
                  Inl e \<Rightarrow> Inl e
                | Inr s \<Rightarrow>
                    (case registerWithMarketData w s of
                       Inl e \<Rightarrow> Inl e
                     | Inr s \<Rightarrow> Inr (setupInterpolation w s))))"
proof -
  let ?init = "\<lparr>correlHandles = correls, correlations = newMatrix 0 0 0, interpolation = None,
      nLosses = length lossLevelArg, tenors = tenorsArg, lossLevel = lossLevelArg,
      trancheDates = [], trancheTimes = [], base = b\<rparr> :: ('p, 'b, 'c) BaseCorrelationTermStructure"
  let ?start = "if startDate = nullDate then referenceDate w else startDate"
  have gen: "generateTrancheDates w (referenceDate w) ?start rule 0 ?init
          = Inr (?init\<lparr>trancheDates := kept\<rparr>)"
    using generateTrancheDates_result [of ds ?init 0 w ?start rule "referenceDate w"] len mat kept
    by simp
  show ?thesis
    unfolding construct_def Let_def tenorsOk gen
    by (simp add: initializeTrancheTimes_result s newMatrix_def cong: sum.case_cong)
qed

lemma checkTrancheTenors_error:
  "tenors s \<noteq> [] \<Longrightarrow> checkTrancheTenors w s = Inl e \<Longrightarrow> \<exists>m. e = InvalidInput m"
  by (auto simp: checkTrancheTenors_def split: if_splits dest: checkTrancheTenors_loop_error)

text \<open>
  Whenever the loop drops a date and keeps another, the matrix has fewer columns than there
  are tenors and \<^verbatim>\<open>checkInputs\<close> stops the constructor.
\<close>

lemma construct_after_expiry:
  fixes w :: "('p, 'b, 'c) World"
  assumes tenorsOk: "checkTrancheTenors w
     \<lparr>correlHandles = correls, correlations = newMatrix 0 0 0, interpolation = None,
      nLosses = length lossLevelArg, tenors = tenorsArg, lossLevel = lossLevelArg,
      trancheDates = [], trancheTimes = [], base = b\<rparr> = Inr ()"
    and len: "length ds = length tenorsArg"
    and mat: "\<And>k. k < length tenorsArg
      \<Longrightarrow> maturity w (if startDate = nullDate then referenceDate w else startDate) rule
            (tenorsArg ! k) = Inr (ds ! k)"
    and kept: "kept = filter (\<lambda>d. referenceDate w < d) ds"
    and some: "kept \<noteq> []"
    and dropped: "length kept < length tenorsArg"
    and tableRows: "length correls = length lossLevelArg"
  shows "construct w b tenorsArg lossLevelArg correls startDate rule
           = Inl (InvalidInput (TenorColumnMismatch (length tenorsArg) (length kept)))"
  using construct_dates [OF tenorsOk len mat kept refl] some dropped tableRows
  by (simp add: checkInputs_def)

subsection \<open>checkLosses\<close>

lemma checkLosses_loop_ok:
  "n = length ls
   \<Longrightarrow> (\<And>k. i \<le> k \<Longrightarrow> k < length ls \<Longrightarrow> ls ! (k - 1) < ls ! k \<and> ls ! k \<le> 1)
   \<Longrightarrow> checkLosses_loop n ls i = (Inr () :: 'p Error + unit)"
proof (induction n ls i rule: checkLosses_loop.induct)
  case (1 n ls i)
  show ?case
  proof (cases "i < n")
    case False
    then show ?thesis by (subst checkLosses_loop.simps) simp
  next
    case True
    then have here: "ls ! (i - 1) < ls ! i \<and> ls ! i \<le> 1" and lt: "i < length ls"
      using "1.prems" by auto
    have "checkLosses_loop n ls (i + 1) = (Inr () :: 'p Error + unit)"
      by (rule "1.IH" [OF True]) (use lt here "1.prems" in auto)
    with True lt here show ?thesis
      by (subst checkLosses_loop.simps) simp
  qed
qed

lemma checkLosses_ok:
  assumes "nLosses s = length (lossLevel s)" and "lossLevel s \<noteq> []"
    and "\<forall>i < length (lossLevel s). 0 < lossLevel s ! i \<and> lossLevel s ! i \<le> 1"
    and "\<forall>i. 1 \<le> i \<and> i < length (lossLevel s) \<longrightarrow> lossLevel s ! (i - 1) < lossLevel s ! i"
  shows "checkLosses s = Inr ()"
proof -
  have "checkLosses_loop (nLosses s) (lossLevel s) 1 = Inr ()"
    using assms by (intro checkLosses_loop_ok) auto
  moreover have "0 < lossLevel s ! 0 \<and> lossLevel s ! 0 \<le> 1"
    using assms(2,3) by (cases "lossLevel s") auto
  ultimately show ?thesis
    using assms(2) by (simp add: checkLosses_def)
qed

subsection \<open>update\<close>

text \<open>
  What \<^verbatim>\<open>update()\<close> changes: the snapshot, filled from the quotes, and the base-class part.
\<close>

lemma update_result:
  assumes "update w s = Inr s'"
  shows "s' = s\<lparr>correlations := correlations s',
                base := termStructureUpdate w (base s)\<rparr>"
    and "\<forall>i < rows (correlations s). \<forall>j < columns (correlations s).
             elem (correlations s') i j
               = quoteValue w (correlHandles s ! i ! unat (tenorStartIndex s + of_nat j))"
proof -
  from assms obtain t where um: "updateMatrix w s = Inr t"
    and s': "s' = t\<lparr>base := termStructureUpdate w (base t)\<rparr>"
    by (auto simp: update_def split: sum.splits)
  from um have t: "t = s\<lparr>correlations := (correlations s)\<lparr>elem := (\<lambda>a b.
                  if a < rows (correlations s) \<and> b < columns (correlations s)
                  then quoteValue w (correlHandles s ! a ! unat (tenorStartIndex s + of_nat b))
                  else elem (correlations s) a b)\<rparr>\<rparr>"
    by (auto simp: updateMatrix_result split: if_splits)
  show "s' = s\<lparr>correlations := correlations s',
                base := termStructureUpdate w (base s)\<rparr>"
    by (simp add: s' t)
  show "\<forall>i < rows (correlations s). \<forall>j < columns (correlations s).
             elem (correlations s') i j
               = quoteValue w (correlHandles s ! i ! unat (tenorStartIndex s + of_nat j))"
    by (simp add: s' t)
qed

subsection \<open>The errors of the constructor\<close>

lemma checkTrancheTenors_loop_errors:
  "checkTrancheTenors_loop w ts i = Inl e
   \<Longrightarrow> \<exists>k p n q. e = InvalidInput (NonIncreasingTenor k p n q)"
proof (induction w ts i rule: checkTrancheTenors_loop.induct)
  case (1 w ts i)
  from "1.prems" show ?case
    by (subst (asm) checkTrancheTenors_loop.simps) (auto split: if_splits dest: "1.IH")
qed

lemma generateTrancheDates_errors:
  "generateTrancheDates w refDate start rule i s = Inl e \<Longrightarrow> e = UndefinedBehaviour"
proof (induction w refDate start rule i s rule: generateTrancheDates.induct)
  case (1 w refDate start rule i s)
  from "1.prems" show ?case
    by (subst (asm) generateTrancheDates.simps)
       (auto simp: maturity_def Let_def split: if_splits sum.splits option.splits
             dest: "1.IH")
qed

lemma updateMatrix_errors:
  "updateMatrix w s = Inl e \<Longrightarrow> e = UndefinedBehaviour"
  by (auto simp: updateMatrix_result split: if_splits)

lemma registerWithMarketData_columns_errors:
  "registerWithMarketData_columns w i j s = Inl e \<Longrightarrow> e = UndefinedBehaviour"
proof (induction w i j s rule: registerWithMarketData_columns.induct)
  case (1 w i j s)
  from "1.prems" show ?case
    by (subst (asm) registerWithMarketData_columns.simps) (auto split: if_splits dest: "1.IH")
qed

lemma registerWithMarketData_rows_errors:
  "registerWithMarketData_rows w i s = Inl e \<Longrightarrow> e = UndefinedBehaviour"
proof (induction w i s rule: registerWithMarketData_rows.induct)
  case (1 w i s)
  from "1.prems" show ?case
    by (subst (asm) registerWithMarketData_rows.simps)
       (auto split: if_splits sum.splits
             dest: "1.IH" registerWithMarketData_columns_errors)
qed

lemma registerWithMarketData_errors:
  "registerWithMarketData w s = Inl e \<Longrightarrow> e = UndefinedBehaviour"
  unfolding registerWithMarketData_def by (rule registerWithMarketData_rows_errors)

text \<open>
  The errors the constructor can end with: those of \<^verbatim>\<open>checkTrancheTenors\<close>, the empty grid,
  the two of \<^verbatim>\<open>checkInputs\<close>, and undefined behaviour. None is about the value of a loss level.
\<close>

lemma construct_errors:
  assumes "construct w b tenorsArg lossLevelArg correls startDate rule = Inl e"
  shows "e = UndefinedBehaviour
       \<or> (\<exists>p. e = InvalidInput (FirstTenorNegative p))
       \<or> (\<exists>k p n q. e = InvalidInput (NonIncreasingTenor k p n q))
       \<or> e = InvalidInput NoTrancheDatesLeft
       \<or> (\<exists>n r. e = InvalidInput (LossRowMismatch n r))
       \<or> (\<exists>n c. e = InvalidInput (TenorColumnMismatch n c))"
  using assms
  by (auto simp: construct_def Let_def checkTrancheTenors_def checkInputs_def
           split: sum.splits if_splits
           dest: checkTrancheTenors_loop_errors generateTrancheDates_errors
                 updateMatrix_errors registerWithMarketData_errors)

subsection \<open>correlation\<close>

text \<open>Whatever its argument \<open>extrapolate\<close>, a query is never refused for being off the grid.\<close>

lemma correlation_never_refuses:
  "correlation w s t l extrapolate \<noteq> Inl ExtrapolationNotAllowed"
  by (simp add: correlation_def interpolate_def split: option.splits)

subsection \<open>Running the model on the example\<close>

lemmas run_simps =
  construct_def checkTrancheTenors_def checkTrancheTenors_loop.simps maturity_def
  generateTrancheDates.simps nullDate_def newMatrix_def initializeTrancheTimes_def resize_def
  initializeTrancheTimes_loop.simps checkInputs_def updateMatrix_def tenorStartIndex_def
  updateMatrix_rows.simps updateMatrix_columns.simps setElem_def registerWithMarketData_def
  registerWithMarketData_rows.simps registerWithMarketData_columns.simps
  setupInterpolation_def exampleWorld_def exampleHandles_def

lemma exampleStructure_built:
  "\<not> isl (construct exampleWorld [] [3, 6, 12] [0.03, 0.07, 0.10] exampleHandles nullDate None)"
  by (simp add: run_simps)

lemma exampleStructure_fields:
  "correlHandles exampleStructure = exampleHandles"
  "rows (correlations exampleStructure) = 3"
  "columns (correlations exampleStructure) = 3"
  "interpolation exampleStructure = Some ()"
  "nLosses exampleStructure = 3"
  "tenors exampleStructure = [3, 6, 12]"
  "lossLevel exampleStructure = [0.03, 0.07, 0.10]"
  "trancheDates exampleStructure = [190, 280, 460]"
  "trancheTimes exampleStructure = [1 / 4, 1 / 2, 1]"
  by (simp_all add: exampleStructure_def run_simps)

lemma exampleStructure_elem:
  "elem (correlations exampleStructure) (Suc (Suc 0)) (Suc (Suc 0)) = 9 / 100"
  "elem (correlations exampleStructure) 0 0 = 1 / 100"
  by (simp_all add: exampleStructure_def run_simps)

section \<open>The claims\<close>

text \<open>
  Claim C1: when some but not all tenors have maturities on or before the reference date,
  construction succeeds with the suffix of later maturities as grid (tenors 3M, 6M, 1Y with
  the 3M maturity expired give a 3 x 2 snapshot and offset 1).

  The code does not do this. With the start date 1 and the reference date 100 the three
  maturities are 91, 181 and 361; the first is dropped and two dates are kept, as the
  comment \<^verbatim>\<open>// only keep future dates\<close> announces. Then \<^verbatim>\<open>checkInputs\<close> compares the number
  of columns of the new matrix (2) with \<^verbatim>\<open>tenors_.size()\<close>, still 3, and the constructor
  throws. The same happens whenever a date is dropped and another kept
  (\<open>construct_after_expiry\<close>).
\<close>

theorem construct_expired_tenor_mismatch:
  "construct exampleWorld [] [3, 6, 12] [0.03, 0.07, 0.10] exampleHandles 1 None
     = Inl (InvalidInput (TenorColumnMismatch 3 2))"
  by (simp add: run_simps)

text \<open>
  Claim C2: for a query point outside the grid, \<^verbatim>\<open>correlation(t, lossLevel, false)\<close> fails
  with ExtrapolationNotAllowed, and with \<^verbatim>\<open>true\<close> it returns the algorithm's extrapolated
  value.

  The code passes the literal \<^verbatim>\<open>true\<close> to the interpolation whatever its own argument
  \<^verbatim>\<open>extrapolate\<close> is. On the example structure (times 1/4, 1/2, 1 and loss levels 3\%, 7\%,
  10\%) the point (5, 0.5) is outside the grid; asked with \<^verbatim>\<open>extrapolate = false\<close> the
  structure answers 0.09, where the interpolation given the caller's flag would refuse.
  The overload taking a date does forward its flag, to this overload
  (\<open>correlation_never_refuses\<close> is the general fact).
\<close>

theorem correlation_ignores_extrapolate:
  "\<not> isInRange (trancheTimes exampleStructure) (lossLevel exampleStructure) 5 0.5
   \<and> correlation exampleWorld exampleStructure 5 0.5 False = Inr (9 / 100)
   \<and> interpolate exampleWorld exampleStructure 5 0.5 False = Inl ExtrapolationNotAllowed"
  by (simp add: correlation_def interpolate_def isInRange_def exampleStructure_fields
      exampleStructure_elem exampleWorld_def flatIndex_def)

text \<open>
  Claim C3: construction fails with InvalidInput whenever the loss levels are invalid (first
  not strictly positive, a level above 1, or not strictly increasing).

  The constructor calls \<^verbatim>\<open>checkTrancheTenors\<close> and never \<^verbatim>\<open>checkLosses\<close>. With the loss
  levels -0.5, 0.07, 1.5 construction succeeds and the object keeps them; \<^verbatim>\<open>checkLosses\<close>
  run on that object reports the first level. No run of the constructor ends with an error
  about a loss level (\<open>construct_errors\<close>).
\<close>

theorem construct_accepts_invalid_losses:
  "\<not> isl (construct exampleWorld [] [3, 6, 12] [- 0.5, 0.07, 1.5] exampleHandles nullDate None)
   \<and> lossLevel (projr (construct exampleWorld [] [3, 6, 12] [- 0.5, 0.07, 1.5] exampleHandles
                         nullDate None)) = [- 0.5, 0.07, 1.5]
   \<and> checkLosses (projr (construct exampleWorld [] [3, 6, 12] [- 0.5, 0.07, 1.5] exampleHandles
                           nullDate None))
       = Inl (InvalidInput (FirstLossNegative (- 0.5)))"
  by (simp add: run_simps checkLosses_def)

text \<open>
  Claim C4: the rebuild done on invalidation, \<^verbatim>\<open>update()\<close>, recomputes the maturity times as
  year fractions of the maturity dates from the current reference date, copies the current
  quote values into the snapshot with the tail-alignment offset, and rebuilds the
  interpolation over the refreshed data.

  The code does the second step and not the first: \<^verbatim>\<open>update()\<close> is \<^verbatim>\<open>updateMatrix()\<close> and
  \<^verbatim>\<open>TermStructure::update()\<close>, and \<^verbatim>\<open>initializeTrancheTimes()\<close> is called by the constructor
  only. On the example structure, built at the reference date 100, \<^verbatim>\<open>update()\<close> thirty days
  later refreshes the snapshot and leaves the times 1/4, 1/2, 1 where the year fractions
  from day 130 are 1/6, 5/12, 11/12. The overload of \<^verbatim>\<open>correlation\<close> taking a date measures
  from the current reference date, so it reads the old grid with a new time: asked at the
  6M maturity date 280 and the loss level 7\%, a knot of the grid whose refreshed quote is
  0.10, it answers with the quote of the 3M column, 0.08.
\<close>

theorem update_keeps_stale_time_grid:
  "\<not> isl (update laterWorld exampleStructure)
   \<and> trancheTimes (projr (update laterWorld exampleStructure)) = [1 / 4, 1 / 2, 1]
   \<and> map (timeFromReference laterWorld)
         (trancheDates (projr (update laterWorld exampleStructure))) = [1 / 6, 5 / 12, 11 / 12]
   \<and> elem (correlations (projr (update laterWorld exampleStructure))) 1 1 = 10 / 100
   \<and> correlationAtDate laterWorld (projr (update laterWorld exampleStructure)) 280 0.07 False
       = Inr (8 / 100)"
proof -
  let ?s = "projr (update laterWorld exampleStructure)"
  have ran: "\<not> isl (update laterWorld exampleStructure)"
    by (simp add: update_def laterWorld_def exampleStructure_fields run_simps)
  have times: "trancheTimes ?s = [1 / 4, 1 / 2, 1]"
    and dates: "trancheDates ?s = [190, 280, 460]"
    and losses: "lossLevel ?s = [0.03, 0.07, 0.10]"
    and interp: "interpolation ?s = Some ()"
    and knot: "elem (correlations ?s) 1 1 = 10 / 100"
    and read: "elem (correlations ?s) (Suc 0) 0 = 8 / 100"
    by (simp_all add: update_def laterWorld_def exampleStructure_fields run_simps)
  have moved: "map (timeFromReference laterWorld) [190, 280, 460] = [1 / 6, 5 / 12, 11 / 12]"
    and t280: "timeFromReference laterWorld 280 = 5 / 12"
    by (simp_all add: laterWorld_def)
  have val: "interpolationValue laterWorld c xs ys zs x y
               = elem zs (flatIndex ys y) (flatIndex xs x)" for c xs ys zs x y
    by (simp add: laterWorld_def exampleWorld_def)
  have "correlationAtDate laterWorld ?s 280 0.07 False = Inr (8 / 100)"
    by (simp add: correlationAtDate_def correlation_def interpolate_def interp times losses
        t280 val flatIndex_def read)
  with ran times dates moved knot show ?thesis
    by simp
qed

text \<open>
  Claim C5: after every snapshot rebuild, for a quote table with \<open>T\<close> original tenor columns
  and a surviving grid of \<open>T' \<le> T\<close> columns, snapshot entry \<open>[i][j]\<close> is the current value of
  the quote handle at row \<open>i\<close>, table column \<open>T - T' + j\<close>, for every valid row and column.

  Here \<open>T\<close> is the length of the first row of the table, as in the source, and \<open>T'\<close> the
  number of columns of the matrix. The table has a row for every row of the matrix, each
  with at least \<open>T\<close> handles, and \<open>T\<close> is a \<^verbatim>\<open>Size\<close>. Then \<^verbatim>\<open>updateMatrix\<close> returns, keeps
  the dimensions, and every entry is the quote at the tail-aligned column.
\<close>

theorem updateMatrix_tail_aligned:
  assumes "correlHandles s \<noteq> []"
    and "columns (correlations s) \<le> length (hd (correlHandles s))"
    and "length (hd (correlHandles s)) < 2 ^ 64"
    and "rows (correlations s) \<le> length (correlHandles s)"
    and "\<forall>i < rows (correlations s). length (hd (correlHandles s)) \<le> length (correlHandles s ! i)"
  shows "\<exists>s'. updateMatrix w s = Inr s'
           \<and> rows (correlations s') = rows (correlations s)
           \<and> columns (correlations s') = columns (correlations s)
           \<and> (\<forall>i < rows (correlations s). \<forall>j < columns (correlations s).
                 elem (correlations s') i j
                   = quoteValue w (correlHandles s ! i
                       ! (length (hd (correlHandles s)) - columns (correlations s) + j)))"
proof -
  have "unat (tenorStartIndex s + of_nat j)
          = length (hd (correlHandles s)) - columns (correlations s) + j"
    if "j < columns (correlations s)" for j
    using assms(2,3) that by (rule tenorStartIndex_aligned)
  then show ?thesis
    by (simp add: updateMatrix_covered [OF assms])
qed

theorem updateMatrix_tail_aligned_witness:
  "\<exists>s'. updateMatrix exampleWorld truncatedStructure = Inr s'
        \<and> elem (correlations s') 0 0 = quoteValue exampleWorld 2
        \<and> elem (correlations s') 2 1 = quoteValue exampleWorld 9"
proof -
  have f: "correlHandles truncatedStructure = exampleHandles"
    "rows (correlations truncatedStructure) = 3"
    "columns (correlations truncatedStructure) = 2"
    by (simp_all add: truncatedStructure_def exampleStructure_fields newMatrix_def)
  have h: "correlHandles truncatedStructure \<noteq> []"
    "columns (correlations truncatedStructure) \<le> length (hd (correlHandles truncatedStructure))"
    "length (hd (correlHandles truncatedStructure)) < 2 ^ 64"
    "rows (correlations truncatedStructure) \<le> length (correlHandles truncatedStructure)"
    "\<forall>i < rows (correlations truncatedStructure).
        length (hd (correlHandles truncatedStructure))
          \<le> length (correlHandles truncatedStructure ! i)"
    by (simp_all add: f exampleHandles_def less_Suc_eq all_conj_distrib numeral_3_eq_3)
  from updateMatrix_tail_aligned [OF h, of exampleWorld]
  obtain s' where s': "updateMatrix exampleWorld truncatedStructure = Inr s'"
    and al: "\<forall>i < 3. \<forall>j < 2. elem (correlations s') i j
               = quoteValue exampleWorld (exampleHandles ! i ! (length (hd exampleHandles) - 2 + j))"
    unfolding f by blast
  from al have "elem (correlations s') 0 0 = quoteValue exampleWorld 2"
    by (simp add: exampleHandles_def)
  moreover from al have "elem (correlations s') 2 1 = quoteValue exampleWorld 9"
    by (simp add: exampleHandles_def)
  ultimately show ?thesis using s' by blast
qed

text \<open>
  Claim C6: for every strictly increasing tenor sequence (first tenor strictly positive) and
  loss-level sequence (strictly increasing, every level in (0, 1]), with all generated
  maturities strictly after the reference date, construction succeeds and \<^verbatim>\<open>maxDate()\<close>
  returns the last date of the grid, the adjusted maturity generated for the last tenor:
  the calendar advance of the start date without a rule; with a rule, the adjusted last date
  of the schedule from the start date to the CDS maturity (rules CDS2015, CDS, OldCDS) or to
  start plus tenor (any other rule).

  The quote table is the one the sequences are given with (section 4.1 of the spec): one row
  per loss level, at least one row, and in every row at least as many handles as in the
  first, which has at least as many as there are tenors. The object built keeps both
  sequences and passes \<^verbatim>\<open>checkLosses\<close>.
\<close>

theorem construct_succeeds_maxDate:
  fixes w :: "('p, 'b, 'c) World"
  assumes nonempty: "tenorsArg \<noteq> []"
    and first: "periodGt w (tenorsArg ! 0) (zeroDays w)"
    and increasing: "\<forall>k. 1 \<le> k \<and> k < length tenorsArg
                       \<longrightarrow> periodGt w (tenorsArg ! k) (tenorsArg ! (k - 1))"
    and lossBounds: "\<forall>i < length lossLevelArg. 0 < lossLevelArg ! i \<and> lossLevelArg ! i \<le> 1"
    and lossIncreasing: "\<forall>i. 1 \<le> i \<and> i < length lossLevelArg
                           \<longrightarrow> lossLevelArg ! (i - 1) < lossLevelArg ! i"
    and future: "\<forall>k < length tenorsArg. \<exists>d.
        maturity w (if startDate = nullDate then referenceDate w else startDate) rule
          (tenorsArg ! k) = Inr d \<and> referenceDate w < d"
    and tableRows: "length correls = length lossLevelArg" "correls \<noteq> []"
    and tableColumns: "\<forall>a < length correls. length (hd correls) \<le> length (correls ! a)"
      "length tenorsArg \<le> length (hd correls)" "length (hd correls) < 2 ^ 64"
  shows "\<exists>s. construct w b tenorsArg lossLevelArg correls startDate rule = Inr s
           \<and> tenors s = tenorsArg \<and> lossLevel s = lossLevelArg
           \<and> checkLosses s = Inr ()
           \<and> length (trancheDates s) = length tenorsArg
           \<and> maxDate s = Inr (last (trancheDates s))
           \<and> (rule = None
                \<longrightarrow> maxDate s
                    = Inr (advance w (if startDate = nullDate then referenceDate w else startDate)
                             (last tenorsArg)))
           \<and> (\<forall>r. rule = Some r
                \<longrightarrow> maxDate s
                    = Inr (adjust w (last (makeSchedule w
                        (if startDate = nullDate then referenceDate w else startDate)
                        (if r = CDS2015 \<or> r = CDS \<or> r = OldCDS
                         then cdsMaturity w
                                (if startDate = nullDate then referenceDate w else startDate)
                                (last tenorsArg) r
                         else plusPeriod w
                                (if startDate = nullDate then referenceDate w else startDate)
                                (last tenorsArg))
                        r))))"
proof -
  let ?start = "if startDate = nullDate then referenceDate w else startDate"
  let ?init = "\<lparr>correlHandles = correls, correlations = newMatrix 0 0 0, interpolation = None,
      nLosses = length lossLevelArg, tenors = tenorsArg, lossLevel = lossLevelArg,
      trancheDates = [], trancheTimes = [], base = b\<rparr> :: ('p, 'b, 'c) BaseCorrelationTermStructure"
  from future obtain ds where len: "length ds = length tenorsArg"
    and ds: "\<forall>k < length tenorsArg. maturity w ?start rule (tenorsArg ! k) = Inr (ds ! k)
                \<and> referenceDate w < ds ! k"
    using maturities_list [of tenorsArg w ?start rule "\<lambda>d. referenceDate w < d"] by blast
  have "referenceDate w < d" if "d \<in> set ds" for d
  proof -
    from that obtain k where "k < length ds" and "d = ds ! k"
      by (auto simp: in_set_conv_nth)
    with ds len show ?thesis by fastforce
  qed
  then have kept: "ds = filter (\<lambda>d. referenceDate w < d) ds"
    by simp
  have dsne: "ds \<noteq> []"
    using len nonempty by auto
  let ?s = "\<lparr>correlHandles = correls,
             correlations = newMatrix (length correls) (length ds) 0,
             interpolation = None, nLosses = length lossLevelArg, tenors = tenorsArg,
             lossLevel = lossLevelArg, trancheDates = ds,
             trancheTimes = map (timeFromReference w) ds, base = b\<rparr>
               :: ('p, 'b, 'c) BaseCorrelationTermStructure"
  have tenorsOk: "checkTrancheTenors w ?init = Inr ()"
    using nonempty first increasing by (intro checkTrancheTenors_ok) auto
  have inputs: "checkInputs ?s (length correls) (length ds) = Inr ()"
    using tableRows len by (simp add: checkInputs_def)
  obtain m where um: "updateMatrix w ?s = Inr (?s\<lparr>correlations := m\<rparr>)"
    using updateMatrix_covered [of ?s w] tableRows tableColumns len
    by (auto simp: newMatrix_def)
  obtain b' where rg: "registerWithMarketData w (?s\<lparr>correlations := m\<rparr>)
                          = Inr (?s\<lparr>correlations := m\<rparr>\<lparr>base := b'\<rparr>)"
    using registerWithMarketData_covered [of "?s\<lparr>correlations := m\<rparr>" w] tableColumns
    by auto
  define final where
    "final = setupInterpolation w (?s\<lparr>correlations := m\<rparr>\<lparr>base := b'\<rparr>)"
  have mat: "maturity w ?start rule (tenorsArg ! k) = Inr (ds ! k)"
    if "k < length tenorsArg" for k
    using ds that by simp
  have built: "construct w b tenorsArg lossLevelArg correls startDate rule = Inr final"
    using construct_dates [OF tenorsOk len mat kept refl] dsne inputs um rg
    by (simp add: final_def)
  have sel: "tenors final = tenorsArg" "lossLevel final = lossLevelArg"
    "nLosses final = length lossLevelArg" "trancheDates final = ds"
    by (simp_all add: final_def setupInterpolation_def)
  have lossne: "lossLevelArg \<noteq> []"
    using tableRows by auto
  have losses: "checkLosses final = Inr ()"
    using lossne lossBounds lossIncreasing by (intro checkLosses_ok) (simp_all add: sel)
  have maxd: "maxDate final = Inr (last ds)"
    using dsne by (simp add: maxDate_def sel)
  have lastd: "maturity w ?start rule (last tenorsArg) = Inr (last ds)"
    using ds len nonempty dsne by (simp add: last_conv_nth)
  have none: "maxDate final = Inr (advance w ?start (last tenorsArg))" if "rule = None"
    using lastd that by (simp add: maxd maturity_def)
  have some: "maxDate final
      = Inr (adjust w (last (makeSchedule w ?start
               (if r = CDS2015 \<or> r = CDS \<or> r = OldCDS
                then cdsMaturity w ?start (last tenorsArg) r
                else plusPeriod w ?start (last tenorsArg)) r)))"
    if "rule = Some r" for r
    using lastd that by (auto simp: maxd maturity_def Let_def split: if_splits)
  show ?thesis
    using built sel losses len maxd none some
    by (intro exI [of _ final]) (simp only: simp_thms, blast)
qed

theorem construct_succeeds_maxDate_witness:
  "(\<exists>s. construct exampleWorld [] [3, 6, 12] [0.03, 0.07, 0.10] exampleHandles nullDate None
           = Inr s
        \<and> checkLosses s = Inr () \<and> length (trancheDates s) = 3 \<and> maxDate s = Inr 460)
   \<and> (\<exists>s. construct exampleWorld [] [3, 6, 12] [0.03, 0.07, 0.10] exampleHandles nullDate
             (Some CDS2015) = Inr s
        \<and> checkLosses s = Inr () \<and> length (trancheDates s) = 3 \<and> maxDate s = Inr 485)
   \<and> (\<exists>s. construct exampleWorld [] [3, 6, 12] [0.03, 0.07, 0.10] exampleHandles nullDate
             (Some Forward) = Inr s
        \<and> checkLosses s = Inr () \<and> length (trancheDates s) = 3 \<and> maxDate s = Inr 465)"
proof -
  have first: "periodGt exampleWorld ([3, 6, 12] ! 0) (zeroDays exampleWorld)"
    by (simp add: exampleWorld_def)
  have increasing: "\<forall>k. 1 \<le> k \<and> k < length [3, 6, 12 :: int]
      \<longrightarrow> periodGt exampleWorld ([3, 6, 12] ! k) ([3, 6, 12] ! (k - 1))"
    by (auto simp: exampleWorld_def less_Suc_eq)
  have lossBounds: "\<forall>i < length [0.03, 0.07, 0.10 :: real].
      0 < [0.03, 0.07, 0.10 :: real] ! i \<and> [0.03, 0.07, 0.10 :: real] ! i \<le> 1"
    by (simp add: less_Suc_eq all_conj_distrib numeral_3_eq_3)
  have lossIncreasing: "\<forall>i. 1 \<le> i \<and> i < length [0.03, 0.07, 0.10 :: real]
      \<longrightarrow> [0.03, 0.07, 0.10 :: real] ! (i - 1) < [0.03, 0.07, 0.10 :: real] ! i"
    by (auto simp: less_Suc_eq)
  have future: "\<forall>k < length [3, 6, 12 :: int]. \<exists>d.
        maturity exampleWorld
          (if nullDate = nullDate then referenceDate exampleWorld else nullDate) rule
          ([3, 6, 12] ! k) = Inr d \<and> referenceDate exampleWorld < d"
    if "rule = None \<or> rule = Some CDS2015 \<or> rule = Some Forward" for rule
    using that
    by (auto simp: maturity_def exampleWorld_def less_Suc_eq all_conj_distrib numeral_3_eq_3)
  have table: "length exampleHandles = length [0.03, 0.07, 0.10 :: real]"
    "exampleHandles \<noteq> []"
    "\<forall>a < length exampleHandles. length (hd exampleHandles) \<le> length (exampleHandles ! a)"
    "length [3, 6, 12 :: int] \<le> length (hd exampleHandles)"
    "length (hd exampleHandles) < 2 ^ 64"
    by (simp_all add: exampleHandles_def less_Suc_eq all_conj_distrib numeral_3_eq_3)
  have "\<exists>s. construct exampleWorld [] [3, 6, 12] [0.03, 0.07, 0.10] exampleHandles nullDate None
           = Inr s
        \<and> checkLosses s = Inr () \<and> length (trancheDates s) = 3 \<and> maxDate s = Inr 460"
    using construct_succeeds_maxDate
            [where tenorsArg = "[3, 6, 12]" and w = exampleWorld and startDate = nullDate
               and rule = None and b = "[]" and lossLevelArg = "[0.03, 0.07, 0.10]"
               and correls = exampleHandles,
             OF _ first increasing lossBounds lossIncreasing future table]
    by (auto simp: exampleWorld_def)
  moreover
  have "\<exists>s. construct exampleWorld [] [3, 6, 12] [0.03, 0.07, 0.10] exampleHandles nullDate
             (Some CDS2015) = Inr s
        \<and> checkLosses s = Inr () \<and> length (trancheDates s) = 3 \<and> maxDate s = Inr 485"
    using construct_succeeds_maxDate
            [where tenorsArg = "[3, 6, 12]" and w = exampleWorld and startDate = nullDate
               and rule = "Some CDS2015" and b = "[]" and lossLevelArg = "[0.03, 0.07, 0.10]"
               and correls = exampleHandles,
             OF _ first increasing lossBounds lossIncreasing future table]
    by (auto simp: exampleWorld_def)
  moreover
  have "\<exists>s. construct exampleWorld [] [3, 6, 12] [0.03, 0.07, 0.10] exampleHandles nullDate
             (Some Forward) = Inr s
        \<and> checkLosses s = Inr () \<and> length (trancheDates s) = 3 \<and> maxDate s = Inr 465"
    using construct_succeeds_maxDate
            [where tenorsArg = "[3, 6, 12]" and w = exampleWorld and startDate = nullDate
               and rule = "Some Forward" and b = "[]" and lossLevelArg = "[0.03, 0.07, 0.10]"
               and correls = exampleHandles,
             OF _ first increasing lossBounds lossIncreasing future table]
    by (auto simp: exampleWorld_def)
  ultimately show ?thesis by blast
qed

text \<open>
  Claim C7: construction fails with InvalidInput when every generated maturity date falls on
  or before the reference date; the failure is raised once, at the level of the surface, not
  for each discarded date.

  Whatever the tenors are (the list is not empty and every maturity is computed), the
  constructor ends with an InvalidInput. When the tenors pass \<^verbatim>\<open>checkTrancheTenors\<close>, the
  loop discards every date without raising, and the one error is that of the
  \<^verbatim>\<open>QL_REQUIRE(!trancheDates_.empty(), ...)\<close> after the loop.
\<close>

theorem construct_no_dates_left:
  fixes w :: "('p, 'b, 'c) World"
  assumes nonempty: "tenorsArg \<noteq> []"
    and expired: "\<forall>k < length tenorsArg. \<exists>d.
        maturity w (if startDate = nullDate then referenceDate w else startDate) rule
          (tenorsArg ! k) = Inr d \<and> d \<le> referenceDate w"
  shows "(\<exists>m. construct w b tenorsArg lossLevelArg correls startDate rule
                = Inl (InvalidInput m))
       \<and> (periodGt w (tenorsArg ! 0) (zeroDays w)
            \<and> (\<forall>k. 1 \<le> k \<and> k < length tenorsArg
                   \<longrightarrow> periodGt w (tenorsArg ! k) (tenorsArg ! (k - 1)))
          \<longrightarrow> construct w b tenorsArg lossLevelArg correls startDate rule
                = Inl (InvalidInput NoTrancheDatesLeft))"
proof -
  let ?init = "\<lparr>correlHandles = correls, correlations = newMatrix 0 0 0, interpolation = None,
      nLosses = length lossLevelArg, tenors = tenorsArg, lossLevel = lossLevelArg,
      trancheDates = [], trancheTimes = [], base = b\<rparr> :: ('p, 'b, 'c) BaseCorrelationTermStructure"
  let ?start = "if startDate = nullDate then referenceDate w else startDate"
  from expired obtain ds where len: "length ds = length tenorsArg"
    and ds: "\<forall>k < length tenorsArg. maturity w ?start rule (tenorsArg ! k) = Inr (ds ! k)
                \<and> ds ! k \<le> referenceDate w"
    using maturities_list [of tenorsArg w ?start rule "\<lambda>d. d \<le> referenceDate w"] by blast
  have "\<not> referenceDate w < d" if "d \<in> set ds" for d
  proof -
    from that obtain k where "k < length ds" and "d = ds ! k"
      by (auto simp: in_set_conv_nth)
    with ds len show ?thesis by fastforce
  qed
  then have none: "filter (\<lambda>d. referenceDate w < d) ds = []"
    by (simp add: filter_empty_conv)
  have after: "construct w b tenorsArg lossLevelArg correls startDate rule
                 = Inl (InvalidInput NoTrancheDatesLeft)"
    if "checkTrancheTenors w ?init = Inr ()"
    using construct_dates [OF that len _ none [symmetric] refl] ds by simp
  have first: "\<exists>m. construct w b tenorsArg lossLevelArg correls startDate rule
                = Inl (InvalidInput m)"
  proof (cases "checkTrancheTenors w ?init")
    case (Inl e)
    with nonempty obtain m where "e = InvalidInput m"
      using checkTrancheTenors_error [of ?init w e] by auto
    with Inl show ?thesis
      by (auto simp: construct_def)
  next
    case (Inr u)
    then show ?thesis using after by simp
  qed
  have second: "construct w b tenorsArg lossLevelArg correls startDate rule
                = Inl (InvalidInput NoTrancheDatesLeft)"
    if "periodGt w (tenorsArg ! 0) (zeroDays w)
            \<and> (\<forall>k. 1 \<le> k \<and> k < length tenorsArg
                   \<longrightarrow> periodGt w (tenorsArg ! k) (tenorsArg ! (k - 1)))"
    using that nonempty by (intro after checkTrancheTenors_ok) auto
  from first second show ?thesis by blast
qed

theorem construct_no_dates_left_witness:
  "construct exampleWorld [] [1, 2, 3] [0.03, 0.07, 0.10] exampleHandles 1 None
     = Inl (InvalidInput NoTrancheDatesLeft)"
proof -
  have a: "\<forall>k < length [1, 2, 3 :: int]. \<exists>d.
        maturity exampleWorld (if 1 = nullDate then referenceDate exampleWorld else 1) None
          ([1, 2, 3] ! k) = Inr d \<and> d \<le> referenceDate exampleWorld"
    by (simp add: maturity_def exampleWorld_def nullDate_def less_Suc_eq all_conj_distrib
        numeral_3_eq_3)
  have b: "periodGt exampleWorld ([1, 2, 3] ! 0) (zeroDays exampleWorld)
            \<and> (\<forall>k. 1 \<le> k \<and> k < length [1, 2, 3 :: int]
                   \<longrightarrow> periodGt exampleWorld ([1, 2, 3] ! k) ([1, 2, 3] ! (k - 1)))"
    by (auto simp: exampleWorld_def less_Suc_eq)
  show ?thesis
    using construct_no_dates_left
            [where tenorsArg = "[1, 2, 3]" and w = exampleWorld and startDate = 1
               and rule = None and b = "[]" and lossLevelArg = "[0.03, 0.07, 0.10]"
               and correls = exampleHandles, OF _ a] b
    by simp
qed

text \<open>
  Claim C8: construction fails with InvalidInput if the first tenor is not strictly positive
  or if a tenor is not strictly greater than its predecessor; in the second case the error
  names the ordinal position and both tenors compared.

  For a non-empty list of tenors: a first tenor that is not above \<^verbatim>\<open>0*Days\<close> gives the
  error carrying that tenor; otherwise, at the first index \<open>k\<close> whose tenor is not above its
  predecessor, the error carries the ordinal \<open>k\<close> with the tenor \<open>k - 1\<close> and the ordinal
  \<open>k + 1\<close> with the tenor \<open>k\<close>, the four values the message prints; and any such defect
  makes the constructor end with an InvalidInput.
\<close>

theorem construct_rejects_bad_tenors:
  assumes "tenorsArg \<noteq> []"
  shows "(\<not> periodGt w (tenorsArg ! 0) (zeroDays w)
            \<longrightarrow> construct w b tenorsArg lossLevelArg correls startDate rule
                  = Inl (InvalidInput (FirstTenorNegative (tenorsArg ! 0))))
       \<and> (periodGt w (tenorsArg ! 0) (zeroDays w) \<and> 1 \<le> k \<and> k < length tenorsArg
            \<and> \<not> periodGt w (tenorsArg ! k) (tenorsArg ! (k - 1))
            \<and> (\<forall>m. 1 \<le> m \<and> m < k \<longrightarrow> periodGt w (tenorsArg ! m) (tenorsArg ! (m - 1)))
            \<longrightarrow> construct w b tenorsArg lossLevelArg correls startDate rule
                  = Inl (InvalidInput
                      (NonIncreasingTenor k (tenorsArg ! (k - 1)) (k + 1) (tenorsArg ! k))))
       \<and> (\<not> periodGt w (tenorsArg ! 0) (zeroDays w)
              \<or> (\<exists>j. 1 \<le> j \<and> j < length tenorsArg
                      \<and> \<not> periodGt w (tenorsArg ! j) (tenorsArg ! (j - 1)))
            \<longrightarrow> (\<exists>m. construct w b tenorsArg lossLevelArg correls startDate rule
                        = Inl (InvalidInput m)))"
proof (intro conjI impI)
  let ?s = "\<lparr>correlHandles = correls, correlations = newMatrix 0 0 0, interpolation = None,
      nLosses = length lossLevelArg, tenors = tenorsArg, lossLevel = lossLevelArg,
      trancheDates = [], trancheTimes = [], base = b\<rparr>"
  {
    assume "\<not> periodGt w (tenorsArg ! 0) (zeroDays w)"
    with assms
    have "checkTrancheTenors w ?s = Inl (InvalidInput (FirstTenorNegative (tenorsArg ! 0)))"
      by (simp add: checkTrancheTenors_def)
    then show "construct w b tenorsArg lossLevelArg correls startDate rule
                 = Inl (InvalidInput (FirstTenorNegative (tenorsArg ! 0)))"
      by (rule construct_tenor_error)
  next
    assume h: "periodGt w (tenorsArg ! 0) (zeroDays w) \<and> 1 \<le> k \<and> k < length tenorsArg
            \<and> \<not> periodGt w (tenorsArg ! k) (tenorsArg ! (k - 1))
            \<and> (\<forall>m. 1 \<le> m \<and> m < k \<longrightarrow> periodGt w (tenorsArg ! m) (tenorsArg ! (m - 1)))"
    then have "checkTrancheTenors_loop w tenorsArg 1
        = Inl (InvalidInput (NonIncreasingTenor k (tenorsArg ! (k - 1)) (k + 1) (tenorsArg ! k)))"
      by (intro checkTrancheTenors_loop_first_failure) auto
    with h assms
    have "checkTrancheTenors w ?s
        = Inl (InvalidInput (NonIncreasingTenor k (tenorsArg ! (k - 1)) (k + 1) (tenorsArg ! k)))"
      by (simp add: checkTrancheTenors_def)
    then show "construct w b tenorsArg lossLevelArg correls startDate rule
        = Inl (InvalidInput (NonIncreasingTenor k (tenorsArg ! (k - 1)) (k + 1) (tenorsArg ! k)))"
      by (rule construct_tenor_error)
  next
    assume bad: "\<not> periodGt w (tenorsArg ! 0) (zeroDays w)
              \<or> (\<exists>j. 1 \<le> j \<and> j < length tenorsArg
                      \<and> \<not> periodGt w (tenorsArg ! j) (tenorsArg ! (j - 1)))"
    have "\<exists>m. checkTrancheTenors w ?s = Inl (InvalidInput m)"
    proof (cases "periodGt w (tenorsArg ! 0) (zeroDays w)")
      case False
      with assms show ?thesis by (simp add: checkTrancheTenors_def)
    next
      case True
      with bad have "checkTrancheTenors_loop w tenorsArg 1 \<noteq> Inr ()"
        by (auto simp: checkTrancheTenors_loop_ok)
      then obtain e where e: "checkTrancheTenors_loop w tenorsArg 1 = Inl e"
        by (cases "checkTrancheTenors_loop w tenorsArg 1") auto
      then obtain m where "e = InvalidInput m"
        using checkTrancheTenors_loop_error by blast
      with e True assms show ?thesis by (simp add: checkTrancheTenors_def)
    qed
    then obtain m where "checkTrancheTenors w ?s = Inl (InvalidInput m)"
      by blast
    then have "construct w b tenorsArg lossLevelArg correls startDate rule = Inl (InvalidInput m)"
      by (rule construct_tenor_error)
    then show "\<exists>m. construct w b tenorsArg lossLevelArg correls startDate rule
                        = Inl (InvalidInput m)"
      by blast
  }
qed

theorem construct_rejects_bad_tenors_witness:
  "construct exampleWorld [] [3, 6, 5] [0.03, 0.07, 0.10] exampleHandles nullDate None
     = Inl (InvalidInput (NonIncreasingTenor 2 6 3 5))
   \<and> construct exampleWorld [] [0, 6, 12] [0.03, 0.07, 0.10] exampleHandles nullDate None
     = Inl (InvalidInput (FirstTenorNegative 0))"
proof -
  have m: "\<forall>m::nat. 1 \<le> m \<and> m < 2
             \<longrightarrow> periodGt exampleWorld ([3, 6, 5] ! m) ([3, 6, 5] ! (m - 1))"
  proof (intro allI impI)
    fix m :: nat
    assume "1 \<le> m \<and> m < 2"
    then have "m = 1" by arith
    then show "periodGt exampleWorld ([3, 6, 5] ! m) ([3, 6, 5] ! (m - 1))"
      by (simp add: exampleWorld_def)
  qed
  have "construct exampleWorld [] [3, 6, 5] [0.03, 0.07, 0.10] exampleHandles nullDate None
     = Inl (InvalidInput (NonIncreasingTenor 2 6 3 5))"
    using construct_rejects_bad_tenors
            [where tenorsArg = "[3, 6, 5]" and w = exampleWorld and k = 2 and b = "[]"
               and lossLevelArg = "[0.03, 0.07, 0.10]" and correls = exampleHandles
               and startDate = nullDate and rule = None]
      m
    by (simp add: exampleWorld_def)
  moreover
  have "construct exampleWorld [] [0, 6, 12] [0.03, 0.07, 0.10] exampleHandles nullDate None
     = Inl (InvalidInput (FirstTenorNegative 0))"
    using construct_rejects_bad_tenors
            [where tenorsArg = "[0, 6, 12]" and w = exampleWorld and k = 1 and b = "[]"
               and lossLevelArg = "[0.03, 0.07, 0.10]" and correls = exampleHandles
               and startDate = nullDate and rule = None]
    by (simp add: exampleWorld_def)
  ultimately show ?thesis by simp
qed

text \<open>
  Claim C9: calling \<^verbatim>\<open>update()\<close> twice in a row, with the same quotes and the same
  reference date (the same market \<open>w\<close>), gives after the second call the snapshot of the
  first, and the same answer to every correlation query, by time and by date.
\<close>

theorem update_twice_same_snapshot:
  assumes "update w s = Inr s1"
  shows "\<exists>s2. update w s1 = Inr s2
           \<and> correlations s2 = correlations s1
           \<and> (\<forall>t l e. correlation w s2 t l e = correlation w s1 t l e)
           \<and> (\<forall>d l e. correlationAtDate w s2 d l e = correlationAtDate w s1 d l e)"
proof -
  from assms obtain s' where um: "updateMatrix w s = Inr s'"
    and s1: "s1 = s'\<lparr>base := termStructureUpdate w (base s')\<rparr>"
    by (auto simp: update_def split: sum.splits)
  have "updateMatrix w s1 = Inr s1"
    using um s1 by (rule updateMatrix_again)
  then have "update w s1 = Inr (s1\<lparr>base := termStructureUpdate w (base s1)\<rparr>)"
    by (simp add: update_def)
  then show ?thesis
    by (simp add: correlation_def correlationAtDate_def interpolate_def split: option.splits)
qed

theorem update_twice_same_snapshot_witness:
  "\<exists>s1 s2. update laterWorld exampleStructure = Inr s1 \<and> update laterWorld s1 = Inr s2
       \<and> correlations s2 = correlations s1
       \<and> correlation laterWorld s2 (1 / 2) 0.07 False
           = correlation laterWorld s1 (1 / 2) 0.07 False"
proof -
  obtain s1 where s1: "update laterWorld exampleStructure = Inr s1"
    by (simp add: update_def laterWorld_def exampleStructure_fields run_simps)
  from update_twice_same_snapshot [OF s1] s1 show ?thesis
    by blast
qed

text \<open>
  Claim C10: \<^verbatim>\<open>updateMatrix\<close> changes only the snapshot matrix; the tenors, the loss levels,
  the maturity dates, the maturity times and the table of quote handles are as before
  (and so are the other members). The quotes themselves are only read: the model of
  \<^verbatim>\<open>updateMatrix\<close> returns no new market.
\<close>

theorem updateMatrix_changes_only_correlations:
  assumes "updateMatrix w s = Inr s'"
  shows "tenors s' = tenors s \<and> lossLevel s' = lossLevel s
       \<and> trancheDates s' = trancheDates s \<and> trancheTimes s' = trancheTimes s
       \<and> correlHandles s' = correlHandles s \<and> nLosses s' = nLosses s
       \<and> interpolation s' = interpolation s \<and> base s' = base s"
proof -
  from assms obtain m where "s' = s\<lparr>correlations := m\<rparr>"
    using updateMatrix_frame(1) by blast
  then show ?thesis by simp
qed

theorem updateMatrix_changes_only_correlations_witness:
  "\<exists>s'. updateMatrix laterWorld exampleStructure = Inr s'
        \<and> tenors s' = [3, 6, 12] \<and> lossLevel s' = [0.03, 0.07, 0.10]
        \<and> trancheDates s' = [190, 280, 460] \<and> trancheTimes s' = [1 / 4, 1 / 2, 1]
        \<and> correlHandles s' = exampleHandles"
proof -
  obtain s' where s': "updateMatrix laterWorld exampleStructure = Inr s'"
    by (simp add: laterWorld_def exampleStructure_fields run_simps)
  from updateMatrix_changes_only_correlations [OF s'] s' show ?thesis
    by (simp add: exampleStructure_fields)
qed

end
